theory Spec2Isabelle
  imports Main "HOL-Library.Word" "HOL-Library.Multiset"
begin

unbundle bit_operations_syntax

section \<open>Schema strings\<close>

text \<open>
  The strings of the schema (names and types) are lists of characters whose codes are
  below 256. The schema gives every field a type string such as \<open>uint8_t[5]\<close>. The code
  takes it apart with \<open>type.replace("[", " ").replace("]", " ").split(" ")\<close>.
  JavaScript's \<open>replace\<close> with a string pattern replaces the first occurrence only, and
  \<open>split(" ")\<close> cuts at every space, keeping empty pieces.
\<close>

fun replace_first :: "char \<Rightarrow> char \<Rightarrow> string \<Rightarrow> string" where
  "replace_first a b [] = []"
| "replace_first a b (c # cs) = (if c = a then b # cs else c # replace_first a b cs)"

fun split_space :: "string \<Rightarrow> string list" where
  "split_space [] = [[]]"
| "split_space (c # cs) =
     (if c = CHR '' '' then [] # split_space cs
      else (case split_space cs of [] \<Rightarrow> [[c]] | w # ws \<Rightarrow> (c # w) # ws))"

definition fieldSplit :: "string \<Rightarrow> string list" where
  "fieldSplit t = split_space (replace_first CHR '']'' CHR '' '' (replace_first CHR ''['' CHR '' '' t))"

text \<open>
  JavaScript's \<open>parseInt(string)\<close>: leading white space is skipped, a sign is read, the
  prefix \<open>0x\<close> or \<open>0X\<close> selects radix 16 (else the radix is 10), and the value is that of
  the longest run of digits of the radix; \<open>None\<close> is \<open>NaN\<close>, the result when there is no
  digit. The numbers of the embedding are exact integers. JavaScript's are doubles, which
  agree with them below \<open>2^53\<close>.
\<close>

definition is_space :: "char \<Rightarrow> bool" where
  "is_space c = ((of_char c :: nat) \<in> {9, 10, 11, 12, 13, 32, 160})"

definition digit_value :: "char \<Rightarrow> nat option" where
  "digit_value c =
     (let k = (of_char c :: nat) in
      if 48 \<le> k \<and> k \<le> 57 then Some (k - 48)
      else if 97 \<le> k \<and> k \<le> 122 then Some (k - 87)
      else if 65 \<le> k \<and> k \<le> 90 then Some (k - 55)
      else None)"

definition radix_digit :: "nat \<Rightarrow> char \<Rightarrow> nat" where
  "radix_digit radix c = (case digit_value c of None \<Rightarrow> radix | Some d \<Rightarrow> d)"

definition digits_value :: "nat \<Rightarrow> string \<Rightarrow> nat" where
  "digits_value radix ds = foldl (\<lambda>a c. radix * a + radix_digit radix c) 0 ds"

definition parseInt :: "string \<Rightarrow> int option" where
  "parseInt s =
     (let s1 = dropWhile is_space s;
          negative = (take 1 s1 = ''-'');
          s2 = (if take 1 s1 = ''-'' \<or> take 1 s1 = ''+'' then drop 1 s1 else s1);
          hex = (take 2 s2 = ''0x'' \<or> take 2 s2 = ''0X'');
          radix = (if hex then 16 else 10);
          s3 = (if hex then drop 2 s2 else s2);
          ds = takeWhile (\<lambda>c. radix_digit radix c < radix) s3
      in if ds = [] then None
         else if negative then Some (- int (digits_value radix ds))
         else Some (int (digits_value radix ds)))"

text \<open>
  Arithmetic on numbers that may be \<open>NaN\<close> or \<open>undefined\<close> (both \<open>None\<close>): the result is
  \<open>NaN\<close> as soon as an operand is. The only division of the code divides a field's length
  by the size of its type, of which the length is a multiple, so the quotient is exact.
\<close>

definition js_times :: "int option \<Rightarrow> int option \<Rightarrow> int option" where
  "js_times a b = (case (a, b) of (Some x, Some y) \<Rightarrow> Some (x * y) | _ \<Rightarrow> None)"

definition js_plus :: "int option \<Rightarrow> int option \<Rightarrow> int option" where
  "js_plus a b = (case (a, b) of (Some x, Some y) \<Rightarrow> Some (x + y) | _ \<Rightarrow> None)"

definition js_minus :: "int option \<Rightarrow> int option \<Rightarrow> int option" where
  "js_minus a b = (case (a, b) of (Some x, Some y) \<Rightarrow> Some (x - y) | _ \<Rightarrow> None)"

definition js_divide :: "int option \<Rightarrow> int option \<Rightarrow> int option" where
  "js_divide a b = (case (a, b) of (Some x, Some y) \<Rightarrow> Some (x div y) | _ \<Rightarrow> None)"

section \<open>Message definitions\<close>

text \<open>
  A field and a message as the XML reader hands them over (\<open>IMavlinkField\<close>,
  \<open>IMavlinkMessage\<close>): the attributes \<open>$.type\<close> and \<open>$.name\<close> of a field, \<open>$.id\<close> and
  \<open>$.name\<close> of a message. The id attribute is a decimal string used as an object key; the
  embedding keeps the number it denotes.
\<close>

record mavfield =
  ftype :: string
  fname :: string

record mavmessage =
  mid :: nat
  mname :: string
  mfields :: "mavfield list"

text \<open>
  \<open>IProcessedMavlinkField\<close> and \<open>IProcessedMavlinkMessage\<close>: what \<open>orderFields\<close> adds.
  \<open>typeLength\<close> is \<open>undefined\<close> for a type that is not in the table, and the other
  lengths are then \<open>NaN\<close>; \<open>None\<close> stands for both.
\<close>

record processed_field =
  f_type :: string
  f_name :: string
  f_initialPos :: nat
  f_typeLength :: "int option"
  f_arrayLength :: "int option"
  f_length :: "int option"

record processed_message =
  m_id :: nat
  m_name :: string
  m_field :: "processed_field list"
  m_payloadLength :: "int option"

definition typeLengths :: "string \<rightharpoonup> nat" where
  "typeLengths = map_of
    [(''float'', 4), (''double'', 8), (''char'', 1), (''int8_t'', 1), (''uint8_t'', 1),
     (''uint8_t_mavlink_version'', 1), (''int16_t'', 2), (''uint16_t'', 2),
     (''int32_t'', 4), (''uint32_t'', 4), (''int64_t'', 8), (''uint64_t'', 8)]"

text \<open>\<open>fieldTypeLength\<close>: \<open>None\<close> is JavaScript's \<open>undefined\<close> for a type not in the table.\<close>

definition fieldTypeLength :: "string \<Rightarrow> int option" where
  "fieldTypeLength t =
     (case fieldSplit t of [] \<Rightarrow> None | b # _ \<Rightarrow> map_option int (typeLengths b))"

text \<open>
  \<open>fieldLength\<close>: the type's size multiplied by \<open>parseInt\<close> of every non-empty piece after
  the type name.
\<close>

fun multiply_up :: "string list \<Rightarrow> int option \<Rightarrow> int option" where
  "multiply_up [] typeLength = typeLength"
| "multiply_up (p # ps) typeLength =
     (if p \<noteq> [] then multiply_up ps (js_times typeLength (parseInt p))
      else multiply_up ps typeLength)"

definition fieldLength :: "string \<Rightarrow> int option" where
  "fieldLength t = multiply_up (tl (fieldSplit t)) (fieldTypeLength t)"

section \<open>Field layout\<close>

text \<open>
  The first loop of \<open>orderFields\<close>: the position in the schema, the two renamed types and
  the three lengths of one field.
\<close>

definition correct_type :: "string \<Rightarrow> string" where
  "correct_type t =
     (let t1 = (if t = ''uint8_t_mavlink_version'' then ''uint8_t'' else t)
      in if t1 = ''array'' then ''int8_t'' else t1)"

definition annotate :: "nat \<Rightarrow> mavfield \<Rightarrow> processed_field" where
  "annotate i f =
     (let t = correct_type (ftype f);
          len = fieldLength t;
          tlen = fieldTypeLength t
      in \<lparr>f_type = t, f_name = fname f, f_initialPos = i, f_typeLength = tlen,
          f_arrayLength = js_divide len tlen, f_length = len\<rparr>)"

fun annotate_from :: "nat \<Rightarrow> mavfield list \<Rightarrow> processed_field list" where
  "annotate_from i [] = []"
| "annotate_from i (f # fs) = annotate i f # annotate_from (Suc i) fs"

text \<open>
  The comparator handed to \<open>Array.prototype.sort\<close>: \<open>None\<close> is \<open>NaN\<close>, its result when
  exactly one of the two sizes is \<open>undefined\<close>. The sort counts \<open>NaN\<close> as 0. JavaScript
  does not fix the sorting algorithm; an insertion sort stands for it. When every size is
  a number the comparator orders fields with different positions strictly, so any correct
  sort returns the same list. When a size is \<open>undefined\<close> the comparator is not consistent
  and the language leaves the order to the engine: the order given here is then one of the
  possible ones.
\<close>

definition compare_fields :: "processed_field \<Rightarrow> processed_field \<Rightarrow> int option" where
  "compare_fields a b =
     (let lenA = f_typeLength a; lenB = f_typeLength b in
      if lenA = lenB then Some (int (f_initialPos a) - int (f_initialPos b))
      else js_minus lenB lenA)"

definition not_after :: "int option \<Rightarrow> bool" where
  "not_after c = (case c of None \<Rightarrow> True | Some k \<Rightarrow> k \<le> 0)"

fun insert_field :: "processed_field \<Rightarrow> processed_field list \<Rightarrow> processed_field list" where
  "insert_field x [] = [x]"
| "insert_field x (y # ys) =
     (if not_after (compare_fields x y) then x # y # ys else y # insert_field x ys)"

definition sort_fields :: "processed_field list \<Rightarrow> processed_field list" where
  "sort_fields xs = foldr insert_field xs []"

definition orderFields :: "mavmessage \<Rightarrow> processed_message" where
  "orderFields m =
     (let fs = annotate_from 0 (mfields m) in
      \<lparr>m_id = mid m, m_name = mname m, m_field = sort_fields fs,
       m_payloadLength = foldl js_plus (Some 0) (map f_length fs)\<rparr>)"

section \<open>The X.25 checksum\<close>

type_synonym byte = "8 word"

text \<open>
  \<open>calculateChecksum\<close>. JavaScript's bit operators work on 32-bit integers; every value
  here stays between 0 and \<open>0xFFFF\<close>, so unbounded integers give the same results.
\<close>

definition checksum_step :: "int \<Rightarrow> byte \<Rightarrow> int" where
  "checksum_step checksum b =
     (let tmp0 = uint b XOR (checksum AND 0xff);
          tmp = (tmp0 XOR push_bit 4 tmp0) AND 0xFF
      in (drop_bit 8 checksum XOR push_bit 8 tmp XOR push_bit 3 tmp XOR drop_bit 4 tmp) AND 0xFFFF)"

definition calculateChecksum :: "byte list \<Rightarrow> int" where
  "calculateChecksum buf = foldl checksum_step 0xffff buf"

section \<open>The per-message checksum\<close>

text \<open>
  \<open>calculateMessageChecksum\<close> builds a JavaScript string and hands \<open>new Buffer(string)\<close>
  to \<open>calculateChecksum\<close>. The string is a list of UTF-16 code units here: the characters
  of names and type tokens are code units below 256, the character made by
  \<open>String.fromCharCode\<close> is any code unit (its argument taken modulo 65536, \<open>NaN\<close> giving
  0). \<open>new Buffer(string)\<close> encodes in UTF-8. A surrogate code unit can only come from
  \<open>String.fromCharCode\<close>, whose neighbours in the string are code units below 256, so it
  is never part of a pair and is encoded as U+FFFD.
\<close>

definition units :: "string \<Rightarrow> nat list" where
  "units s = map of_char s"

definition fromCharCode :: "int option \<Rightarrow> nat" where
  "fromCharCode n = (case n of None \<Rightarrow> 0 | Some k \<Rightarrow> nat (k mod 65536))"

definition utf8_unit :: "nat \<Rightarrow> byte list" where
  "utf8_unit u =
     (if u < 0x80 then [of_nat u]
      else if u < 0x800 then [of_nat (0xC0 + u div 64), of_nat (0x80 + u mod 64)]
      else if 0xD800 \<le> u \<and> u \<le> 0xDFFF then [0xEF, 0xBF, 0xBD]
      else [of_nat (0xE0 + u div 4096), of_nat (0x80 + (u div 64) mod 64), of_nat (0x80 + u mod 64)])"

definition utf8 :: "nat list \<Rightarrow> byte list" where
  "utf8 us = concat (map utf8_unit us)"

fun checksumString_loop :: "processed_field list \<Rightarrow> nat list \<Rightarrow> nat list" where
  "checksumString_loop [] checksumString = checksumString"
| "checksumString_loop (f # fs) checksumString =
     (case fieldSplit (f_type f) of
        [] \<Rightarrow> checksumString_loop fs checksumString
      | t0 # rest \<Rightarrow>
          (let s1 = checksumString @ units t0 @ units '' '';
               s2 = s1 @ units (f_name f) @ units '' '';
               s3 = (case rest of [] \<Rightarrow> s2 | t1 # _ \<Rightarrow> s2 @ [fromCharCode (parseInt t1)])
           in checksumString_loop fs s3))"

text \<open>The message after \<open>orderFields\<close>, and the checksum returned.\<close>

definition calculateMessageChecksum :: "mavmessage \<Rightarrow> processed_message \<times> int" where
  "calculateMessageChecksum m =
     (let message = orderFields m;
          checksumString = checksumString_loop (m_field message) (units (m_name message) @ units '' '');
          checksum = calculateChecksum (utf8 checksumString)
      in (message, (checksum AND 0xFF) XOR drop_bit 8 checksum))"

section \<open>The codec object and its catalog\<close>

text \<open>
  A catalog entry is the message object of the XML reader. In version \<open>v1.0\<close> it was
  processed by \<open>orderFields\<close> before it was stored; in any other version
  \<open>calculateMessageChecksum\<close>, and with it \<open>orderFields\<close>, is not called, and the message
  is stored as read (the cast to \<open>IProcessedMavlinkMessage\<close> in \<open>addMessages\<close> checks
  nothing).
\<close>

datatype entry = Processed processed_message | Unprocessed mavmessage

fun entry_id :: "entry \<Rightarrow> nat" where
  "entry_id (Processed pm) = m_id pm"
| "entry_id (Unprocessed m) = mid m"

fun entry_name :: "entry \<Rightarrow> string" where
  "entry_name (Processed pm) = m_name pm"
| "entry_name (Unprocessed m) = mname m"

text \<open>
  The fields of class \<open>mavlink\<close> that the codec reads and writes (\<open>definitions\<close> and
  \<open>enums\<close> are only stored).
\<close>

record mavlink =
  version :: string
  sysid :: nat
  compid :: nat
  buffer :: "byte list"
  bufferIndex :: nat
  messageLength :: nat
  sequence :: nat
  messagesByID :: "nat \<rightharpoonup> entry"
  messagesByName :: "string \<rightharpoonup> entry"
  messageChecksums :: "nat \<rightharpoonup> int"
  lastCounter :: nat

text \<open>
  The constructor, before any definition is loaded. \<open>new Buffer(512)\<close> does not
  initialise its memory; zeros stand for it, and the theorems below hold for any content.
\<close>

definition new_mavlink :: "nat \<Rightarrow> nat \<Rightarrow> string \<Rightarrow> mavlink" where
  "new_mavlink sid cid ver =
     \<lparr>version = ver, sysid = sid, compid = cid, buffer = replicate 512 0, bufferIndex = 0,
      messageLength = 0, sequence = 0, messagesByID = Map.empty, messagesByName = Map.empty,
      messageChecksums = Map.empty, lastCounter = 0\<rparr>"

definition addMessage :: "mavlink \<Rightarrow> entry \<Rightarrow> mavlink" where
  "addMessage st e =
     st\<lparr>messagesByID := (messagesByID st)(entry_id e \<mapsto> e),
        messagesByName := (messagesByName st)(entry_name e \<mapsto> e)\<rparr>"

fun addMessages :: "mavlink \<Rightarrow> mavmessage list \<Rightarrow> mavlink" where
  "addMessages st [] = st"
| "addMessages st (m # ms) =
     (if version st = ''v1.0'' then
        (case calculateMessageChecksum m of
           (message, c) \<Rightarrow>
             addMessages (addMessage (st\<lparr>messageChecksums := (messageChecksums st)(mid m \<mapsto> c)\<rparr>)
                            (Processed message)) ms)
      else addMessages (addMessage st (Unprocessed m)) ms)"

text \<open>
  \<open>loadDefinitions\<close>: the message lists of the definition files, in the order in which
  their reads complete.
\<close>

fun loadDefinitions :: "mavlink \<Rightarrow> mavmessage list list \<Rightarrow> mavlink" where
  "loadDefinitions st [] = st"
| "loadDefinitions st (d # ds) = loadDefinitions (addMessages st d) ds"

definition getMessageID :: "mavlink \<Rightarrow> string \<Rightarrow> int" where
  "getMessageID st n = (case messagesByName st n of Some e \<Rightarrow> int (entry_id e) | None \<Rightarrow> -1)"

definition getMessageName :: "mavlink \<Rightarrow> nat \<Rightarrow> string" where
  "getMessageName st i = (case messagesByID st i of Some e \<Rightarrow> entry_name e | None \<Rightarrow> [])"

section \<open>Descriptors with definite lengths\<close>

text \<open>
  The codec allocates buffers of \<open>payloadLength\<close> bytes and moves through them by
  \<open>typeLength\<close> and \<open>length\<close>. Where all the lengths of a descriptor are numbers that are
  not negative, \<open>sized\<close> gives the descriptor with these numbers as naturals; the embedding
  follows \<open>createMessage\<close> and \<open>decodeMessage\<close> on such descriptors. With a length that is
  \<open>NaN\<close>, \<open>undefined\<close> or negative, what \<open>new Buffer\<close> and the buffer methods do depends on
  the version of Node, and the embedding does not evaluate them (\<open>OutsideModel\<close> below).
\<close>

record pfield =
  ptype :: string
  pname :: string
  initialPos :: nat
  typeLength :: nat
  arrayLength :: nat
  flength :: nat

record pmessage =
  pid :: nat
  pmname :: string
  field :: "pfield list"
  payloadLength :: nat

definition sized_field :: "processed_field \<Rightarrow> pfield option" where
  "sized_field f =
     (case (f_typeLength f, f_arrayLength f, f_length f) of
        (Some t, Some a, Some l) \<Rightarrow>
          if 0 \<le> t \<and> 0 \<le> a \<and> 0 \<le> l
          then Some \<lparr>ptype = f_type f, pname = f_name f, initialPos = f_initialPos f,
                     typeLength = nat t, arrayLength = nat a, flength = nat l\<rparr>
          else None
      | _ \<Rightarrow> None)"

fun sized_fields :: "processed_field list \<Rightarrow> pfield list option" where
  "sized_fields [] = Some []"
| "sized_fields (f # fs) =
     (case sized_field f of
        None \<Rightarrow> None
      | Some p \<Rightarrow> (case sized_fields fs of None \<Rightarrow> None | Some ps \<Rightarrow> Some (p # ps)))"

definition sized :: "processed_message \<Rightarrow> pmessage option" where
  "sized m =
     (case (sized_fields (m_field m), m_payloadLength m) of
        (Some ps, Some l) \<Rightarrow>
          if 0 \<le> l then Some \<lparr>pid = m_id m, pmname = m_name m, field = ps, payloadLength = nat l\<rparr>
          else None
      | _ \<Rightarrow> None)"

text \<open>The other way round: a descriptor with natural lengths as the code stores it.\<close>

definition unsized_field :: "pfield \<Rightarrow> processed_field" where
  "unsized_field p =
     \<lparr>f_type = ptype p, f_name = pname p, f_initialPos = initialPos p,
      f_typeLength = Some (int (typeLength p)), f_arrayLength = Some (int (arrayLength p)),
      f_length = Some (int (flength p))\<rparr>"

definition unsized :: "pmessage \<Rightarrow> processed_message" where
  "unsized M =
     \<lparr>m_id = pid M, m_name = pmname M, m_field = map unsized_field (field M),
      m_payloadLength = Some (int (payloadLength M))\<rparr>"

text \<open>
  Modelled from the spec: the definition files \<open>common.xml\<close> and \<open>ardupilotmega.xml\<close> are
  not part of the sources. These are the messages of the MAVLink 1.0 common set that the
  spec's scenarios and the example program use, with the field types of that set.
\<close>

definition HEARTBEAT :: mavmessage where
  "HEARTBEAT = \<lparr>mid = 0, mname = ''HEARTBEAT'', mfields =
     [\<lparr>ftype = ''uint8_t'', fname = ''type''\<rparr>,
      \<lparr>ftype = ''uint8_t'', fname = ''autopilot''\<rparr>,
      \<lparr>ftype = ''uint8_t'', fname = ''base_mode''\<rparr>,
      \<lparr>ftype = ''uint32_t'', fname = ''custom_mode''\<rparr>,
      \<lparr>ftype = ''uint8_t'', fname = ''system_status''\<rparr>,
      \<lparr>ftype = ''uint8_t_mavlink_version'', fname = ''mavlink_version''\<rparr>]\<rparr>"

definition SYSTEM_TIME :: mavmessage where
  "SYSTEM_TIME = \<lparr>mid = 2, mname = ''SYSTEM_TIME'', mfields =
     [\<lparr>ftype = ''uint64_t'', fname = ''time_unix_usec''\<rparr>,
      \<lparr>ftype = ''uint32_t'', fname = ''time_boot_ms''\<rparr>]\<rparr>"

definition PARAM_VALUE :: mavmessage where
  "PARAM_VALUE = \<lparr>mid = 22, mname = ''PARAM_VALUE'', mfields =
     [\<lparr>ftype = ''char[16]'', fname = ''param_id''\<rparr>,
      \<lparr>ftype = ''float'', fname = ''param_value''\<rparr>,
      \<lparr>ftype = ''uint8_t'', fname = ''param_type''\<rparr>,
      \<lparr>ftype = ''uint16_t'', fname = ''param_count''\<rparr>,
      \<lparr>ftype = ''uint16_t'', fname = ''param_index''\<rparr>]\<rparr>"

definition GPS_STATUS :: mavmessage where
  "GPS_STATUS = \<lparr>mid = 25, mname = ''GPS_STATUS'', mfields =
     [\<lparr>ftype = ''uint8_t'', fname = ''satellites_visible''\<rparr>,
      \<lparr>ftype = ''uint8_t[20]'', fname = ''satellite_prn''\<rparr>,
      \<lparr>ftype = ''uint8_t[20]'', fname = ''satellite_used''\<rparr>,
      \<lparr>ftype = ''uint8_t[20]'', fname = ''satellite_elevation''\<rparr>,
      \<lparr>ftype = ''uint8_t[20]'', fname = ''satellite_azimuth''\<rparr>,
      \<lparr>ftype = ''uint8_t[20]'', fname = ''satellite_snr''\<rparr>]\<rparr>"

definition ATTITUDE :: mavmessage where
  "ATTITUDE = \<lparr>mid = 30, mname = ''ATTITUDE'', mfields =
     [\<lparr>ftype = ''uint32_t'', fname = ''time_boot_ms''\<rparr>,
      \<lparr>ftype = ''float'', fname = ''roll''\<rparr>,
      \<lparr>ftype = ''float'', fname = ''pitch''\<rparr>,
      \<lparr>ftype = ''float'', fname = ''yaw''\<rparr>,
      \<lparr>ftype = ''float'', fname = ''rollspeed''\<rparr>,
      \<lparr>ftype = ''float'', fname = ''pitchspeed''\<rparr>,
      \<lparr>ftype = ''float'', fname = ''yawspeed''\<rparr>]\<rparr>"

section \<open>JavaScript values and Node buffers\<close>

text \<open>
  The values of a field map and of a decoded message. A number written to or read from an
  integer field is \<open>Num\<close>; a number written to or read from a \<open>float\<close> or \<open>double\<close>
  field is given by its IEEE 754 bit pattern (\<open>F32\<close>, \<open>F64\<close>), the pattern that
  \<open>writeFloatLE\<close> and \<open>writeDoubleLE\<close> store: rounding a JavaScript number to that pattern
  is floating-point arithmetic and stays outside the embedding. \<open>Str\<close> is a string of
  code units below 256. \<open>Utf8 bs\<close> is the string \<open>Buffer.toString()\<close> makes of bytes that
  are not all below 128, left undecoded.
\<close>

datatype jsval =
  Num int | F32 "32 word" | F64 "64 word" | Str string | Utf8 "byte list" |
  Arr "jsval list" | Undefined

text \<open>
  What the code can throw. \<open>OutOfRange\<close> is Node's error for a value or an offset out of
  bounds (a \<open>RangeError\<close>; a \<open>TypeError\<close> for values in old versions). \<open>OutsideModel\<close>
  is not an exception: it marks an input on which the embedding does not evaluate the
  code (a JavaScript coercion between strings, integers and floats).
\<close>

datatype exn = TypeError | OutOfRange | NotImplemented string | OutsideModel

fun le_bytes :: "nat \<Rightarrow> int \<Rightarrow> byte list" where
  "le_bytes 0 v = []"
| "le_bytes (Suc n) v = of_int v # le_bytes n (v div 256)"

fun le_value :: "byte list \<Rightarrow> int" where
  "le_value [] = 0"
| "le_value (b # bs) = uint b + 256 * le_value bs"

definition write_bytes :: "byte list \<Rightarrow> nat \<Rightarrow> byte list \<Rightarrow> exn + byte list" where
  "write_bytes buf offset bs =
     (if offset + length bs \<le> length buf
      then Inr (take offset buf @ bs @ drop (offset + length bs) buf)
      else Inl OutOfRange)"

definition read_bytes :: "byte list \<Rightarrow> nat \<Rightarrow> nat \<Rightarrow> exn + byte list" where
  "read_bytes buf offset n =
     (if offset + n \<le> length buf then Inr (take n (drop offset buf)) else Inl OutOfRange)"

text \<open>\<open>writeUInt8\<close>, \<open>writeUInt16LE\<close>, \<open>writeUInt32LE\<close> are \<open>writeUInt\<close> with 1, 2 and 4 bytes.\<close>

definition writeUInt :: "nat \<Rightarrow> byte list \<Rightarrow> int \<Rightarrow> nat \<Rightarrow> exn + byte list" where
  "writeUInt n buf v offset =
     (if v < 0 \<or> 256 ^ n \<le> v then Inl OutOfRange else write_bytes buf offset (le_bytes n v))"

definition writeInt :: "nat \<Rightarrow> byte list \<Rightarrow> int \<Rightarrow> nat \<Rightarrow> exn + byte list" where
  "writeInt n buf v offset =
     (if v < - (256 ^ n div 2) \<or> 256 ^ n div 2 \<le> v then Inl OutOfRange
      else write_bytes buf offset (le_bytes n v))"

definition readUInt :: "nat \<Rightarrow> byte list \<Rightarrow> nat \<Rightarrow> exn + int" where
  "readUInt n buf offset =
     (case read_bytes buf offset n of Inl e \<Rightarrow> Inl e | Inr bs \<Rightarrow> Inr (le_value bs))"

definition readInt :: "nat \<Rightarrow> byte list \<Rightarrow> nat \<Rightarrow> exn + int" where
  "readInt n buf offset =
     (case read_bytes buf offset n of
        Inl e \<Rightarrow> Inl e
      | Inr bs \<Rightarrow> Inr (if 256 ^ n div 2 \<le> le_value bs then le_value bs - 256 ^ n else le_value bs))"

text \<open>
  \<open>source.copy(target, targetStart, sourceStart, sourceEnd)\<close>: as many bytes as the source
  range has and the target has room for.
\<close>

definition buffer_copy :: "byte list \<Rightarrow> byte list \<Rightarrow> nat \<Rightarrow> nat \<Rightarrow> nat \<Rightarrow> byte list" where
  "buffer_copy source target targetStart sourceStart sourceEnd =
     (let n = min (min sourceEnd (length source) - sourceStart) (length target - targetStart)
      in take targetStart target @ take n (drop sourceStart source) @ drop (targetStart + n) target)"

section \<open>The message object\<close>

text \<open>
  Class \<open>mavlinkMessage\<close>. Its constructor reads a buffer of at least 8 bytes in both
  places where the code calls it; \<open>new Buffer(n)\<close> is taken as zero-filled (every byte of
  it is overwritten when the source is long enough).
\<close>

record mavlinkMessage =
  msg_length :: nat
  msg_sequence :: nat
  msg_system :: nat
  msg_component :: nat
  msg_id :: nat
  msg_payload :: "byte list"
  msg_checksum :: int
  msg_buffer :: "byte list"

definition new_mavlinkMessage :: "byte list \<Rightarrow> exn + mavlinkMessage" where
  "new_mavlinkMessage buf =
     (if length buf < 6 then Inl TypeError
      else
        (let len = unat (buf ! 1) in
         case readUInt 2 buf (len + 6) of
           Inl e \<Rightarrow> Inl e
         | Inr cs \<Rightarrow>
             Inr \<lparr>msg_length = len, msg_sequence = unat (buf ! 2), msg_system = unat (buf ! 3),
                  msg_component = unat (buf ! 4), msg_id = unat (buf ! 5),
                  msg_payload = buffer_copy buf (replicate len 0) 0 6 (6 + len),
                  msg_checksum = cs,
                  msg_buffer = buffer_copy buf (replicate (len + 8) 0) 0 0 (8 + len)\<rparr>))"

section \<open>Building a frame\<close>

definition startCharacter :: "string \<Rightarrow> byte option" where
  "startCharacter ver =
     (if ver = ''v1.0'' then Some 0xFE else if ver = ''v0.9'' then Some 0x55 else None)"

text \<open>
  One iteration of the loop of \<open>bufferField\<close>: the \<open>switch\<close> on the type name. Writing a
  value whose JavaScript type is not the field's needs a coercion and is \<open>OutsideModel\<close>,
  except where the code certainly throws (\<open>charCodeAt\<close> on a value that is not a string).
\<close>

definition write_element :: "string \<Rightarrow> byte list \<Rightarrow> nat \<Rightarrow> jsval \<Rightarrow> exn + byte list" where
  "write_element t buf offset v =
     (if t = ''float'' then
        (case v of F32 w \<Rightarrow> write_bytes buf offset (le_bytes 4 (uint w)) | _ \<Rightarrow> Inl OutsideModel)
      else if t = ''double'' then
        (case v of F64 w \<Rightarrow> write_bytes buf offset (le_bytes 8 (uint w)) | _ \<Rightarrow> Inl OutsideModel)
      else if t = ''char'' then
        (case v of
           Str (c # cs) \<Rightarrow> writeUInt 1 buf (of_char c) offset
         | Str [] \<Rightarrow> Inl OutsideModel
         | Utf8 bs \<Rightarrow> Inl OutsideModel
         | _ \<Rightarrow> Inl TypeError)
      else if t = ''int8_t'' then
        (case v of Num n \<Rightarrow> writeInt 1 buf n offset | _ \<Rightarrow> Inl OutsideModel)
      else if t = ''uint8_t'' then
        (case v of Num n \<Rightarrow> writeUInt 1 buf n offset | _ \<Rightarrow> Inl OutsideModel)
      else if t = ''uint8_t_mavlink_version'' then
        (case v of Num n \<Rightarrow> writeUInt 1 buf n offset | _ \<Rightarrow> Inl OutsideModel)
      else if t = ''int16_t'' then
        (case v of Num n \<Rightarrow> writeInt 2 buf n offset | _ \<Rightarrow> Inl OutsideModel)
      else if t = ''uint16_t'' then
        (case v of Num n \<Rightarrow> writeUInt 2 buf n offset | _ \<Rightarrow> Inl OutsideModel)
      else if t = ''int32_t'' then
        (case v of Num n \<Rightarrow> writeInt 4 buf n offset | _ \<Rightarrow> Inl OutsideModel)
      else if t = ''uint32_t'' then
        (case v of Num n \<Rightarrow> writeUInt 4 buf n offset | _ \<Rightarrow> Inl OutsideModel)
      else if t = ''int64_t'' then Inr buf
      else if t = ''uint64_t'' then Inr buf
      else Inl (NotImplemented t))"

fun write_elements :: "string \<Rightarrow> nat \<Rightarrow> byte list \<Rightarrow> nat \<Rightarrow> jsval list \<Rightarrow> exn + byte list" where
  "write_elements t tlen buf offset [] = Inr buf"
| "write_elements t tlen buf offset (v # vs) =
     (case write_element t buf offset v of
        Inl e \<Rightarrow> Inl e
      | Inr buf' \<Rightarrow> write_elements t tlen buf' (offset + tlen) vs)"

text \<open>
  \<open>valueArr\<close>: the value itself in a one-element array for a field that is not an array,
  else the value. The loop runs over \<open>valueArr.length\<close> elements: the elements of an
  array, the characters of a string, and none for a number (its \<open>length\<close> is
  \<open>undefined\<close>).
\<close>

definition valueArr :: "string list \<Rightarrow> jsval \<Rightarrow> exn + jsval list" where
  "valueArr pieces v =
     (if length pieces = 1 then Inr [v]
      else (case v of
              Arr xs \<Rightarrow> Inr xs
            | Str s \<Rightarrow> Inr (map (\<lambda>c. Str [c]) s)
            | Utf8 bs \<Rightarrow> Inl OutsideModel
            | Undefined \<Rightarrow> Inl TypeError
            | _ \<Rightarrow> Inr []))"

definition bufferField :: "byte list \<Rightarrow> nat \<Rightarrow> pfield \<Rightarrow> jsval \<Rightarrow> exn + byte list" where
  "bufferField buf offset fld v =
     (let pieces = fieldSplit (ptype fld) in
      case valueArr pieces v of
        Inl e \<Rightarrow> Inl e
      | Inr vs \<Rightarrow> write_elements (hd pieces) (typeLength fld) buf offset vs)"

text \<open>
  The ways \<open>createMessage\<close> ends without calling the callback: the two early returns, and
  an exception.
\<close>

datatype build_error = UnknownMessage | MissingField string | Thrown exn

datatype msgid = ById nat | ByName string

fun fill_fields :: "pfield list \<Rightarrow> (string \<rightharpoonup> jsval) \<Rightarrow> byte list \<Rightarrow> nat \<Rightarrow> build_error + byte list" where
  "fill_fields [] data payloadBuf offset = Inr payloadBuf"
| "fill_fields (f # fs) data payloadBuf offset =
     (case data (pname f) of
        None \<Rightarrow> Inl (MissingField (pname f))
      | Some Undefined \<Rightarrow> Inl (MissingField (pname f))
      | Some v \<Rightarrow>
          (case bufferField payloadBuf offset f v of
             Inl e \<Rightarrow> Inl (Thrown e)
           | Inr buf' \<Rightarrow> fill_fields fs data buf' (offset + flength f)))"

definition seed_byte :: "int option \<Rightarrow> byte" where
  "seed_byte c = (case c of None \<Rightarrow> 0 | Some k \<Rightarrow> of_int k)"

definition start_byte :: "string \<Rightarrow> byte" where
  "start_byte ver = (case startCharacter ver of None \<Rightarrow> 0 | Some b \<Rightarrow> b)"

definition resolve :: "mavlink \<Rightarrow> msgid \<Rightarrow> (nat \<times> entry) option" where
  "resolve st m =
     (case m of
        ById i \<Rightarrow> map_option (\<lambda>e. (i, e)) (messagesByID st i)
      | ByName n \<Rightarrow>
          (case messagesByName st n of
             None \<Rightarrow> None
           | Some e \<Rightarrow> map_option (\<lambda>e'. (entry_id e, e')) (messagesByID st (entry_id e))))"

text \<open>
  \<open>createMessage\<close>. The result is the message object handed to the callback, or the way
  the call ended without calling it, and the codec object afterwards. The warning printed
  when both ids are zero changes nothing and is not modelled. An entry that was not
  processed has no \<open>payloadLength\<close>, and \<open>new Buffer(undefined)\<close> throws. A
  processed entry with a length that is not a natural number is \<open>OutsideModel\<close>.
\<close>

definition createMessage ::
  "mavlink \<Rightarrow> msgid \<Rightarrow> (string \<rightharpoonup> jsval) \<Rightarrow> (build_error + mavlinkMessage) \<times> mavlink" where
  "createMessage st m data =
     (case resolve st m of
        None \<Rightarrow> (Inl UnknownMessage, st)
      | Some (i, Unprocessed r) \<Rightarrow> (Inl (Thrown TypeError), st)
      | Some (i, Processed stored) \<Rightarrow>
       (case sized stored of
          None \<Rightarrow> (Inl (Thrown OutsideModel), st)
        | Some message \<Rightarrow>
          (case fill_fields (field message) data (replicate (payloadLength message) 0) 0 of
             Inl e \<Rightarrow> (Inl e, st)
           | Inr payloadBuf \<Rightarrow>
               (let st' = st\<lparr>sequence := (if sequence st = 255 then 0 else sequence st + 1)\<rparr>;
                    L = payloadLength message;
                    header = (replicate (L + 8) 0)
                               [0 := start_byte (version st'), 1 := of_nat L, 2 := of_nat (sequence st'),
                                3 := of_nat (sysid st'), 4 := of_nat (compid st'), 5 := of_nat i];
                    msgBuf = buffer_copy payloadBuf header 6 0 (length payloadBuf);
                    crc_buf = (buffer_copy msgBuf (replicate (L + 6) 0) 0 1 (L + 6))
                                [L + 5 := seed_byte (messageChecksums st' i)]
                in case writeUInt 2 msgBuf (calculateChecksum crc_buf) (L + 6) of
                     Inl e \<Rightarrow> (Inl (Thrown e), st')
                   | Inr framed \<Rightarrow>
                       (case new_mavlinkMessage framed of
                          Inl e \<Rightarrow> (Inl (Thrown e), st')
                        | Inr msgObj \<Rightarrow> (Inr msgObj, st'))))))"

section \<open>Decoding a payload\<close>

text \<open>
  \<open>trim_buffer\<close>: the loop runs from the last index down to 0 and stops at the first byte
  that is not zero; \<open>pos\<close> starts at 0 and stays 0 when the loop finds nothing.
\<close>

fun trim_scan :: "byte list \<Rightarrow> nat \<Rightarrow> nat" where
  "trim_scan buf 0 = 0"
| "trim_scan buf (Suc i) = (if buf ! i \<noteq> 0 then i else trim_scan buf i)"

definition trim_buffer :: "byte list \<Rightarrow> byte list" where
  "trim_buffer buf = take (trim_scan buf (length buf) + 1) buf"

text \<open>\<open>Buffer.toString()\<close> decodes UTF-8; bytes below 128 are the characters themselves.\<close>

definition toString :: "byte list \<Rightarrow> jsval" where
  "toString bs =
     (if list_all (\<lambda>b. b < 128) bs then Str (map (\<lambda>b. char_of (unat b)) bs) else Utf8 bs)"

text \<open>
  \<open>new Buffer(array)\<close> on the numbers that \<open>readUInt8\<close> returned. An element that is not
  a number becomes 0.
\<close>

definition bytes_of :: "jsval list \<Rightarrow> byte list" where
  "bytes_of vs = map (\<lambda>v. case v of Num n \<Rightarrow> of_int n | _ \<Rightarrow> 0) vs"

text \<open>
  The \<open>switch\<close> of \<open>decodeMessage\<close>. For \<open>int64_t\<close> the value stays 0; for \<open>uint64_t\<close>
  the code computes \<open>(val1 << 32) + val2\<close>, and JavaScript shifts by the count modulo 32,
  so \<open>val1 << 32\<close> is \<open>val1\<close> read as a signed 32-bit integer.
\<close>

definition read_element :: "string \<Rightarrow> byte list \<Rightarrow> nat \<Rightarrow> exn + jsval" where
  "read_element t payload offset =
     (if t = ''float'' then map_sum id (\<lambda>bs. F32 (of_int (le_value bs))) (read_bytes payload offset 4)
      else if t = ''double'' then map_sum id (\<lambda>bs. F64 (of_int (le_value bs))) (read_bytes payload offset 8)
      else if t = ''char'' then map_sum id Num (readUInt 1 payload offset)
      else if t = ''int8_t'' then map_sum id Num (readInt 1 payload offset)
      else if t = ''uint8_t'' then map_sum id Num (readUInt 1 payload offset)
      else if t = ''uint8_t_mavlink_version'' then map_sum id Num (readUInt 1 payload offset)
      else if t = ''int16_t'' then map_sum id Num (readInt 2 payload offset)
      else if t = ''uint16_t'' then map_sum id Num (readUInt 2 payload offset)
      else if t = ''int32_t'' then map_sum id Num (readInt 4 payload offset)
      else if t = ''uint32_t'' then map_sum id Num (readUInt 4 payload offset)
      else if t = ''int64_t'' then Inr (Num 0)
      else if t = ''uint64_t'' then
        (case readUInt 4 payload offset of
           Inl e \<Rightarrow> Inl e
         | Inr val1 \<Rightarrow>
             (case readUInt 4 payload (offset + 4) of
                Inl e \<Rightarrow> Inl e
              | Inr val2 \<Rightarrow> Inr (Num (sint (word_of_int val1 :: 32 word) + val2))))
      else Inl (NotImplemented t))"

text \<open>The inner loop: \<open>n\<close> elements from \<open>offset\<close> on; the values read and the new offset.\<close>

fun read_elements :: "string \<Rightarrow> nat \<Rightarrow> byte list \<Rightarrow> nat \<Rightarrow> nat \<Rightarrow> exn + (jsval list \<times> nat)" where
  "read_elements t tlen payload offset 0 = Inr ([], offset)"
| "read_elements t tlen payload offset (Suc n) =
     (case read_element t payload offset of
        Inl e \<Rightarrow> Inl e
      | Inr v \<Rightarrow>
          (case read_elements t tlen payload (offset + tlen) n of
             Inl e \<Rightarrow> Inl e
           | Inr (vs, offset') \<Rightarrow> Inr (v # vs, offset')))"

text \<open>
  What one pass of the outer loop leaves in \<open>values\<close> under the field's name: for an array
  the list of the values read (a string for \<open>char\<close>), else the last value read, and
  nothing new when no value was read.
\<close>

definition field_value :: "string list \<Rightarrow> jsval list \<Rightarrow> jsval option" where
  "field_value pieces vs =
     (if 1 < length pieces then
        (if hd pieces = ''char'' then Some (toString (trim_buffer (bytes_of vs))) else Some (Arr vs))
      else if vs = [] then None else Some (last vs))"

fun decode_fields ::
  "pfield list \<Rightarrow> byte list \<Rightarrow> nat \<Rightarrow> (string \<rightharpoonup> jsval) \<Rightarrow> exn + (string \<rightharpoonup> jsval)" where
  "decode_fields [] payload offset values = Inr values"
| "decode_fields (f # fs) payload offset values =
     (let pieces = fieldSplit (ptype f) in
      case read_elements (hd pieces) (typeLength f) payload offset (arrayLength f) of
        Inl e \<Rightarrow> Inl e
      | Inr (vs, offset') \<Rightarrow>
          decode_fields fs payload offset'
            (case field_value pieces vs of None \<Rightarrow> values | Some v \<Rightarrow> values(pname f \<mapsto> v)))"

text \<open>
  On an entry that was not processed, \<open>arrayLength\<close> is \<open>undefined\<close>: the inner loop does
  not run, and an array field gets \<open>new Array(undefined)\<close>, the array of the one element
  \<open>undefined\<close>.
\<close>

fun decode_unprocessed :: "mavfield list \<Rightarrow> (string \<rightharpoonup> jsval) \<Rightarrow> (string \<rightharpoonup> jsval)" where
  "decode_unprocessed [] values = values"
| "decode_unprocessed (f # fs) values =
     decode_unprocessed fs
       (case field_value (fieldSplit (ftype f)) [Undefined] of
          None \<Rightarrow> values
        | Some v \<Rightarrow> if 1 < length (fieldSplit (ftype f)) then values(fname f \<mapsto> v) else values)"

text \<open>
  \<open>decodeMessage\<close>. Its first statement reads \<open>.field\<close> of \<open>messagesByID[message.id]\<close>,
  which throws a \<open>TypeError\<close> when the catalog has no such id.
\<close>

definition decodeMessage :: "mavlink \<Rightarrow> mavlinkMessage \<Rightarrow> exn + (string \<rightharpoonup> jsval)" where
  "decodeMessage st message =
     (case messagesByID st (msg_id message) of
        None \<Rightarrow> Inl TypeError
      | Some (Processed stored) \<Rightarrow>
          (case sized stored of
             None \<Rightarrow> Inl OutsideModel
           | Some pm \<Rightarrow> decode_fields (field pm) (msg_payload message) 0 Map.empty)
      | Some (Unprocessed m) \<Rightarrow> Inr (decode_unprocessed (mfields m) Map.empty))"

section \<open>The frame parser\<close>

text \<open>The events the parser emits, with their arguments.\<close>

datatype event =
  SequenceError int
| ChecksumFail nat "int option" int int
| Message string mavlinkMessage "string \<rightharpoonup> jsval"
| Named string mavlinkMessage "string \<rightharpoonup> jsval"

text \<open>
  The last block of \<open>parseChar\<close>, entered when a whole frame is in the buffer. The result
  is the codec object afterwards, the events emitted, and the exception if one was thrown.
  The events are emitted and \<open>lastCounter\<close> is assigned before \<open>decodeMessage\<close> runs, so
  an exception keeps them; it skips the reset of \<open>bufferIndex\<close> and \<open>messageLength\<close>.
\<close>

definition crc_buffer :: "mavlink \<Rightarrow> byte list" where
  "crc_buffer st =
     (let L = messageLength st in
      if version st = ''v1.0'' then
        (buffer_copy (buffer st) (replicate (L + 6) 0) 0 1 (L + 6))
          [L + 5 := seed_byte (messageChecksums st (unat (buffer st ! 5)))]
      else buffer_copy (buffer st) (replicate (L + 5) 0) 0 1 (L + 6))"

definition reset :: "mavlink \<Rightarrow> mavlink" where
  "reset st = st\<lparr>bufferIndex := 0, messageLength := 0\<rparr>"

definition end_of_packet :: "mavlink \<Rightarrow> mavlink \<times> event list \<times> exn option" where
  "end_of_packet st =
     (let crc_buf = crc_buffer st in
      case readUInt 2 (buffer st) (messageLength st + 6) of
        Inl e \<Rightarrow> (st, [], Some e)
      | Inr received \<Rightarrow>
          if calculateChecksum crc_buf = received then
            (let seq = unat (buffer st ! 2);
                 errs = (if 0 < seq \<and> int seq - int (lastCounter st) \<noteq> 1
                         then [SequenceError (int seq - int (lastCounter st) - 1)] else []);
                 st1 = st\<lparr>lastCounter := seq\<rparr>
             in case new_mavlinkMessage (buffer st1) of
                  Inl e \<Rightarrow> (st1, errs, Some e)
                | Inr message \<Rightarrow>
                    if (sysid st1 = 0 \<and> compid st1 = 0) \<or>
                       (msg_system message = sysid st1 \<and> msg_component message = compid st1)
                    then
                      (case decodeMessage st1 message of
                         Inl e \<Rightarrow> (st1, errs, Some e)
                       | Inr values \<Rightarrow>
                           (let name = getMessageName st1 (unat (buffer st1 ! 5))
                            in (reset st1, errs @ [Message name message values, Named name message values], None)))
                    else (reset st1, errs, None))
          else
            (reset st,
             [ChecksumFail (unat (buffer st ! 5)) (messageChecksums st (unat (buffer st ! 5)))
                (calculateChecksum crc_buf) received],
             None))"

definition parseChar :: "mavlink \<Rightarrow> byte \<Rightarrow> mavlink \<times> event list \<times> exn option" where
  "parseChar st ch =
     (if bufferIndex st = 0 \<and> Some ch = startCharacter (version st) then
        (st\<lparr>buffer := (buffer st)[bufferIndex st := ch], bufferIndex := bufferIndex st + 1\<rparr>, [], None)
      else if bufferIndex st = 1 then
        (st\<lparr>buffer := (buffer st)[bufferIndex st := ch], messageLength := unat ch,
            bufferIndex := bufferIndex st + 1\<rparr>, [], None)
      else
        (let st1 = (if 1 < bufferIndex st \<and> bufferIndex st < messageLength st + 8
                    then st\<lparr>buffer := (buffer st)[bufferIndex st := ch], bufferIndex := bufferIndex st + 1\<rparr>
                    else st)
         in if bufferIndex st1 = messageLength st1 + 8 then end_of_packet st1 else (st1, [], None)))"

text \<open>\<open>parse\<close>: the loop over the bytes of a chunk; an exception ends it.\<close>

fun parse :: "mavlink \<Rightarrow> byte list \<Rightarrow> mavlink \<times> event list \<times> exn option" where
  "parse st [] = (st, [], None)"
| "parse st (ch # rest) =
     (case parseChar st ch of
        (st1, evs, Some e) \<Rightarrow> (st1, evs, Some e)
      | (st1, evs, None) \<Rightarrow>
          (case parse st1 rest of (st2, evs', r) \<Rightarrow> (st2, evs @ evs', r)))"

text \<open>
  Two calls of \<open>parse\<close> in a row, as statements of the caller: the exception of the first
  ends the sequence.
\<close>

definition parse_then_parse :: "mavlink \<Rightarrow> byte list \<Rightarrow> byte list \<Rightarrow> mavlink \<times> event list \<times> exn option" where
  "parse_then_parse st a b =
     (case parse st a of
        (st1, evs, Some e) \<Rightarrow> (st1, evs, Some e)
      | (st1, evs, None) \<Rightarrow>
          (case parse st1 b of (st2, evs', r) \<Rightarrow> (st2, evs @ evs', r)))"

text \<open>
  Any number of calls of \<open>parse\<close> in a row, one for each chunk of a list of chunks.
\<close>

fun parse_chunks :: "mavlink \<Rightarrow> byte list list \<Rightarrow> mavlink \<times> event list \<times> exn option" where
  "parse_chunks st [] = (st, [], None)"
| "parse_chunks st (c # cs) =
     (case parse st c of
        (st1, evs, Some e) \<Rightarrow> (st1, evs, Some e)
      | (st1, evs, None) \<Rightarrow>
          (case parse_chunks st1 cs of (st2, evs', r) \<Rightarrow> (st2, evs @ evs', r)))"

section \<open>Layout order and the signature string, in closed form\<close>





definition base_token :: "pfield \<Rightarrow> string" where
  "base_token f = (case fieldSplit (ptype f) of [] \<Rightarrow> [] | b # _ \<Rightarrow> b)"

definition is_array :: "pfield \<Rightarrow> bool" where
  "is_array f = (1 < length (fieldSplit (ptype f)))"

text \<open>
  The signature string as the code builds it: the message name, the type token and the
  field name are each followed by one space; the character of an array field, whose code
  is the length written between the brackets of its type, comes after the space that
  follows its name, and nothing separates it from what comes next.
\<close>

definition type_token :: "processed_field \<Rightarrow> nat list" where
  "type_token f = (case fieldSplit (f_type f) of [] \<Rightarrow> [] | b # _ \<Rightarrow> units b)"

definition array_character :: "processed_field \<Rightarrow> nat list" where
  "array_character f =
     (case fieldSplit (f_type f) of b # n # _ \<Rightarrow> [fromCharCode (parseInt n)] | _ \<Rightarrow> [])"

definition field_signature :: "processed_field \<Rightarrow> nat list" where
  "field_signature f =
     type_token f @ units '' '' @ units (f_name f) @ units '' '' @ array_character f"

definition signature :: "processed_message \<Rightarrow> nat list" where
  "signature pm = units (m_name pm) @ units '' '' @ concat (map field_signature (m_field pm))"

text \<open>The bytes of a string whose characters are one byte each.\<close>

definition one_byte_each :: "nat list \<Rightarrow> byte list" where
  "one_byte_each us = map of_nat us"

definition fold_byte :: "int \<Rightarrow> int" where
  "fold_byte crc = (crc AND 0xFF) XOR drop_bit 8 crc"

text \<open>
  The signature string in the words of the specification: the name, then for each field
  its type token, its name and, for an array, the character of its length, the items
  separated by single spaces.
\<close>

fun join_spaces :: "nat list list \<Rightarrow> nat list" where
  "join_spaces [] = []"
| "join_spaces [t] = t"
| "join_spaces (t # ts) = t @ units '' '' @ join_spaces ts"

definition spec_items :: "processed_message \<Rightarrow> nat list list" where
  "spec_items pm =
     units (m_name pm) #
     concat (map (\<lambda>f. [type_token f, units (f_name f)] @
                        (if array_character f = [] then [] else [array_character f]))
               (m_field pm))"

definition spec_signature :: "processed_message \<Rightarrow> nat list" where
  "spec_signature pm = join_spaces (spec_items pm)"

section \<open>The catalog after loading\<close>

text \<open>
  What \<open>addMessages\<close> keeps true in version \<open>v1.0\<close>: every entry of \<open>messagesByID\<close> is
  the processed form of a message of the schema, stored under that message's id together
  with the checksum computed for it.
\<close>

definition loaded_from :: "mavmessage set \<Rightarrow> mavlink \<Rightarrow> bool" where
  "loaded_from S st =
     (\<forall>i e. messagesByID st i = Some e \<longrightarrow>
        (\<exists>m\<in>S. e = Processed (orderFields m) \<and> i = mid m \<and>
            messageChecksums st i = Some (snd (calculateMessageChecksum m))))"


text \<open>The descriptors that \<open>orderFields\<close> computes for three of the messages above.\<close>

definition ATTITUDE_layout :: pmessage where
  "ATTITUDE_layout = \<lparr>pid = 30, pmname = ''ATTITUDE'', field =
     [\<lparr>ptype = ''uint32_t'', pname = ''time_boot_ms'', initialPos = 0, typeLength = 4, arrayLength = 1, flength = 4\<rparr>,
      \<lparr>ptype = ''float'', pname = ''roll'', initialPos = 1, typeLength = 4, arrayLength = 1, flength = 4\<rparr>,
      \<lparr>ptype = ''float'', pname = ''pitch'', initialPos = 2, typeLength = 4, arrayLength = 1, flength = 4\<rparr>,
      \<lparr>ptype = ''float'', pname = ''yaw'', initialPos = 3, typeLength = 4, arrayLength = 1, flength = 4\<rparr>,
      \<lparr>ptype = ''float'', pname = ''rollspeed'', initialPos = 4, typeLength = 4, arrayLength = 1, flength = 4\<rparr>,
      \<lparr>ptype = ''float'', pname = ''pitchspeed'', initialPos = 5, typeLength = 4, arrayLength = 1, flength = 4\<rparr>,
      \<lparr>ptype = ''float'', pname = ''yawspeed'', initialPos = 6, typeLength = 4, arrayLength = 1, flength = 4\<rparr>],
     payloadLength = 28\<rparr>"

definition PARAM_VALUE_layout :: pmessage where
  "PARAM_VALUE_layout = \<lparr>pid = 22, pmname = ''PARAM_VALUE'', field =
     [\<lparr>ptype = ''float'', pname = ''param_value'', initialPos = 1, typeLength = 4, arrayLength = 1, flength = 4\<rparr>,
      \<lparr>ptype = ''uint16_t'', pname = ''param_count'', initialPos = 3, typeLength = 2, arrayLength = 1, flength = 2\<rparr>,
      \<lparr>ptype = ''uint16_t'', pname = ''param_index'', initialPos = 4, typeLength = 2, arrayLength = 1, flength = 2\<rparr>,
      \<lparr>ptype = ''char[16]'', pname = ''param_id'', initialPos = 0, typeLength = 1, arrayLength = 16, flength = 16\<rparr>,
      \<lparr>ptype = ''uint8_t'', pname = ''param_type'', initialPos = 2, typeLength = 1, arrayLength = 1, flength = 1\<rparr>],
     payloadLength = 25\<rparr>"

definition SYSTEM_TIME_layout :: pmessage where
  "SYSTEM_TIME_layout = \<lparr>pid = 2, pmname = ''SYSTEM_TIME'', field =
     [\<lparr>ptype = ''uint64_t'', pname = ''time_unix_usec'', initialPos = 0, typeLength = 8, arrayLength = 1, flength = 8\<rparr>,
      \<lparr>ptype = ''uint32_t'', pname = ''time_boot_ms'', initialPos = 1, typeLength = 4, arrayLength = 1, flength = 4\<rparr>],
     payloadLength = 12\<rparr>"

section \<open>Valid field maps and the bytes of their values\<close>

text \<open>
  The integer types with their sizes in bytes, and the values a field of each type can
  hold. The 64-bit types are in neither table: the code writes nothing for them.
\<close>

definition unsigned_bytes :: "string \<rightharpoonup> nat" where
  "unsigned_bytes = map_of
     [(''uint8_t'', 1), (''uint8_t_mavlink_version'', 1), (''uint16_t'', 2), (''uint32_t'', 4)]"

definition signed_bytes :: "string \<rightharpoonup> nat" where
  "signed_bytes = map_of [(''int8_t'', 1), (''int16_t'', 2), (''int32_t'', 4)]"

definition valid_element :: "string \<Rightarrow> jsval \<Rightarrow> bool" where
  "valid_element t v =
     (case v of
        Num n \<Rightarrow>
          (case unsigned_bytes t of
             Some k \<Rightarrow> 0 \<le> n \<and> n < 256 ^ k
           | None \<Rightarrow>
               (case signed_bytes t of
                  Some k \<Rightarrow> - (256 ^ k div 2) \<le> n \<and> n < 256 ^ k div 2
                | None \<Rightarrow> False))
      | F32 w \<Rightarrow> t = ''float''
      | F64 w \<Rightarrow> t = ''double''
      | _ \<Rightarrow> False)"

text \<open>A string without its trailing zero characters.\<close>

definition trim_zeros :: "string \<Rightarrow> string" where
  "trim_zeros s = rev (dropWhile (\<lambda>c. c = CHR 0x00) (rev s))"

text \<open>
  A valid value for a field: for an array of numbers an array of exactly \<open>arrayLength\<close>
  values in range; for a \<open>char\<close> array a string of 7-bit characters, no longer than the
  array, with a character that is not zero; for a single \<open>char\<close> a string of one
  character; else one value in range.
\<close>

definition valid_value :: "pfield \<Rightarrow> jsval \<Rightarrow> bool" where
  "valid_value f v =
     (let t = base_token f in
      if is_array f then
        (if t = ''char'' then
           (case v of
              Str s \<Rightarrow> length s \<le> arrayLength f \<and> list_all (\<lambda>c. (of_char c :: nat) < 128) s \<and>
                         trim_zeros s \<noteq> []
            | _ \<Rightarrow> False)
         else (case v of
                 Arr vs \<Rightarrow> length vs = arrayLength f \<and> list_all (valid_element t) vs
               | _ \<Rightarrow> False))
      else if t = ''char'' then (case v of Str s \<Rightarrow> length s = 1 | _ \<Rightarrow> False)
      else valid_element t v)"

definition valid_map :: "pmessage \<Rightarrow> (string \<rightharpoonup> jsval) \<Rightarrow> bool" where
  "valid_map M data =
     list_all (\<lambda>f. case data (pname f) of None \<Rightarrow> False | Some v \<Rightarrow> valid_value f v) (field M)"

text \<open>
  What decoding gives back for a valid value: the string of a \<open>char\<close> array without its
  trailing zeros, the character code of a single \<open>char\<close>, and any other value as it is.
\<close>

definition normalise :: "pfield \<Rightarrow> jsval \<Rightarrow> jsval" where
  "normalise f v =
     (case v of
        Str s \<Rightarrow> if is_array f then Str (trim_zeros s) else Num (of_char (hd s))
      | _ \<Rightarrow> v)"

definition normalised_map :: "pmessage \<Rightarrow> (string \<rightharpoonup> jsval) \<Rightarrow> (string \<rightharpoonup> jsval)" where
  "normalised_map M data n =
     (case find (\<lambda>f. pname f = n) (field M) of
        None \<Rightarrow> None
      | Some f \<Rightarrow> map_option (normalise f) (data n))"

text \<open>The bytes of a valid value on the wire.\<close>

definition char_byte :: "char \<Rightarrow> byte" where
  "char_byte c = of_nat (of_char c)"

definition element_bytes :: "string \<Rightarrow> jsval \<Rightarrow> byte list" where
  "element_bytes t v =
     (case v of
        Num n \<Rightarrow> (case typeLengths t of None \<Rightarrow> [] | Some k \<Rightarrow> le_bytes k n)
      | F32 w \<Rightarrow> le_bytes 4 (uint w)
      | F64 w \<Rightarrow> le_bytes 8 (uint w)
      | Str s \<Rightarrow> map char_byte (take 1 s)
      | _ \<Rightarrow> [])"

definition field_bytes :: "pfield \<Rightarrow> jsval \<Rightarrow> byte list" where
  "field_bytes f v =
     (if is_array f then
        (case v of
           Arr vs \<Rightarrow> concat (map (element_bytes (base_token f)) vs)
         | Str s \<Rightarrow> map char_byte s @ replicate (arrayLength f - length s) 0
         | _ \<Rightarrow> [])
      else element_bytes (base_token f) v)"

definition payload_bytes :: "pfield list \<Rightarrow> (string \<rightharpoonup> jsval) \<Rightarrow> byte list" where
  "payload_bytes fs data =
     concat (map (\<lambda>f. case data (pname f) of None \<Rightarrow> [] | Some v \<Rightarrow> field_bytes f v) fs)"

text \<open>What \<open>orderFields\<close> establishes for each field.\<close>

definition laid_out :: "pfield \<Rightarrow> bool" where
  "laid_out f =
     (fieldTypeLength (ptype f) = Some (int (typeLength f)) \<and>
      flength f = typeLength f * arrayLength f \<and>
      (is_array f \<or> arrayLength f = 1))"

section \<open>Calling \<open>createMessage\<close> repeatedly\<close>

fun createMessages ::
  "mavlink \<Rightarrow> (msgid \<times> (string \<rightharpoonup> jsval)) list \<Rightarrow> (build_error + mavlinkMessage) list \<times> mavlink" where
  "createMessages st [] = ([], st)"
| "createMessages st ((m, data) # calls) =
     (case createMessage st m data of
        (r, st1) \<Rightarrow> (case createMessages st1 calls of (rs, st2) \<Rightarrow> (r # rs, st2)))"

fun built :: "(build_error + mavlinkMessage) list \<Rightarrow> mavlinkMessage list" where
  "built [] = []"
| "built (Inl e # rs) = built rs"
| "built (Inr m # rs) = m # built rs"

section \<open>The frame of a payload\<close>

text \<open>
  The bytes \<open>createMessage\<close> puts together around a payload, for the codec object as it is
  after the sequence counter has advanced, and the message object made from them.
\<close>

definition frame_body :: "mavlink \<Rightarrow> nat \<Rightarrow> byte list \<Rightarrow> byte list" where
  "frame_body st i payload =
     [of_nat (length payload), of_nat (sequence st), of_nat (sysid st), of_nat (compid st), of_nat i]
     @ payload"

definition frame_checksum :: "mavlink \<Rightarrow> nat \<Rightarrow> byte list \<Rightarrow> int" where
  "frame_checksum st i payload =
     calculateChecksum (frame_body st i payload @ [seed_byte (messageChecksums st i)])"

definition frame_of :: "mavlink \<Rightarrow> nat \<Rightarrow> byte list \<Rightarrow> byte list" where
  "frame_of st i payload =
     start_byte (version st) # frame_body st i payload @ le_bytes 2 (frame_checksum st i payload)"

definition message_of :: "mavlink \<Rightarrow> nat \<Rightarrow> byte list \<Rightarrow> mavlinkMessage" where
  "message_of st i payload =
     \<lparr>msg_length = length payload, msg_sequence = unat (of_nat (sequence st) :: byte),
      msg_system = unat (of_nat (sysid st) :: byte), msg_component = unat (of_nat (compid st) :: byte),
      msg_id = unat (of_nat i :: byte), msg_payload = payload,
      msg_checksum = frame_checksum st i payload, msg_buffer = frame_of st i payload\<rparr>"

definition next_sequence :: "mavlink \<Rightarrow> mavlink" where
  "next_sequence st = st\<lparr>sequence := (if sequence st = 255 then 0 else sequence st + 1)\<rparr>"

section \<open>Sample codec objects and field maps\<close>

text \<open>
  The codec object after loading, in version \<open>v1.0\<close>, a schema of one message with
  layout \<open>M\<close> and checksum \<open>seed\<close> (see \<open>load_sample\<close> below).
\<close>

definition codec_with :: "nat \<Rightarrow> nat \<Rightarrow> pmessage \<Rightarrow> int \<Rightarrow> mavlink" where
  "codec_with sid cid M seed =
     addMessage ((new_mavlink sid cid ''v1.0'')\<lparr>messageChecksums := [pid M \<mapsto> seed]\<rparr>)
       (Processed (unsized M))"

text \<open>
  The field maps of the example program. The numbers 0.1 to 0.6 and 3.14159 are given by
  their binary32 patterns.
\<close>

definition attitude_values :: "string \<rightharpoonup> jsval" where
  "attitude_values =
     [''time_boot_ms'' \<mapsto> Num 30, ''roll'' \<mapsto> F32 0x3DCCCCCD, ''pitch'' \<mapsto> F32 0x3E4CCCCD,
      ''yaw'' \<mapsto> F32 0x3E99999A, ''rollspeed'' \<mapsto> F32 0x3ECCCCCD,
      ''pitchspeed'' \<mapsto> F32 0x3F000000, ''yawspeed'' \<mapsto> F32 0x3F19999A]"

definition param_values :: "string \<Rightarrow> string \<rightharpoonup> jsval" where
  "param_values name =
     [''param_id'' \<mapsto> Str name, ''param_value'' \<mapsto> F32 0x40490FD0, ''param_type'' \<mapsto> Num 5,
      ''param_count'' \<mapsto> Num 100, ''param_index'' \<mapsto> Num 55]"

definition system_time_values :: "string \<rightharpoonup> jsval" where
  "system_time_values = [''time_unix_usec'' \<mapsto> Num 1000000, ''time_boot_ms'' \<mapsto> Num 30]"

section \<open>Descriptors with definite lengths\<close>

lemma sized_unsized_field [simp]: "sized_field (unsized_field p) = Some p"
  by (simp add: sized_field_def unsized_field_def)

lemma unsized_sized_field: "sized_field f = Some p \<Longrightarrow> f = unsized_field p"
  by (cases f) (auto simp: sized_field_def unsized_field_def split: option.splits if_splits)

lemma sized_fields_map [simp]: "sized_fields (map unsized_field ps) = Some ps"
  by (induction ps) simp_all

lemma sized_fields_unsized: "sized_fields fs = Some ps \<Longrightarrow> fs = map unsized_field ps"
  by (induction fs arbitrary: ps) (auto split: option.splits dest: unsized_sized_field)

lemma sized_unsized [simp]: "sized (unsized M) = Some M"
  by (simp add: sized_def unsized_def)

lemma unsized_sized: "sized J = Some M \<Longrightarrow> J = unsized M"
  by (cases J) (auto simp: sized_def unsized_def split: option.splits if_splits
      dest: sized_fields_unsized)

section \<open>Properties of the field layout\<close>












section \<open>Properties of the signature string\<close>

lemma split_space_nonempty: "split_space s \<noteq> []"
  by (induction s) (auto split: list.splits)

lemma fieldSplit_nonempty: "fieldSplit t \<noteq> []"
  by (simp add: fieldSplit_def split_space_nonempty)

lemma checksumString_loop_signature:
  "checksumString_loop ps acc = acc @ concat (map field_signature ps)"
proof (induction ps arbitrary: acc)
  case Nil
  then show ?case by simp
next
  case (Cons p ps)
  obtain b rest where sp: "fieldSplit (f_type p) = b # rest"
    using fieldSplit_nonempty[of "f_type p"] by (cases "fieldSplit (f_type p)") auto
  show ?case
    by (cases rest)
      (simp_all add: sp Cons.IH Let_def field_signature_def type_token_def array_character_def)
qed

lemma utf8_ascii: "\<forall>u\<in>set us. u < 128 \<Longrightarrow> utf8 us = one_byte_each us"
  by (induction us) (simp_all add: utf8_def utf8_unit_def one_byte_each_def)

lemma calculateMessageChecksum_signature:
  assumes "\<forall>u\<in>set (signature (orderFields m)). u < 128"
  shows "snd (calculateMessageChecksum m) =
           fold_byte (calculateChecksum (one_byte_each (signature (orderFields m))))"
proof -
  have "checksumString_loop (m_field (orderFields m)) (units (m_name (orderFields m)) @ units '' '')
          = signature (orderFields m)"
    by (simp add: checksumString_loop_signature signature_def)
  with utf8_ascii[OF assms] show ?thesis
    by (simp add: calculateMessageChecksum_def Let_def fold_byte_def)
qed

lemma fst_calculateMessageChecksum: "fst (calculateMessageChecksum m) = orderFields m"
  by (simp add: calculateMessageChecksum_def Let_def)

section \<open>The layouts and checksums of the sample messages\<close>

lemmas parseInt_eval = parseInt_def is_space_def digit_value_def radix_digit_def digits_value_def

lemmas layout_eval = orderFields_def annotate_def correct_type_def fieldLength_def
  fieldTypeLength_def fieldSplit_def typeLengths_def Let_def parseInt_eval
  sort_fields_def compare_fields_def not_after_def js_times_def js_plus_def js_minus_def
  js_divide_def unsized_def unsized_field_def

lemmas checksum_eval = units_def utf8_def utf8_unit_def calculateChecksum_def checksum_step_def
  fromCharCode_def

lemma orderFields_ATTITUDE: "orderFields ATTITUDE = unsized ATTITUDE_layout"
  by (simp add: ATTITUDE_def ATTITUDE_layout_def layout_eval)

lemma orderFields_PARAM_VALUE: "orderFields PARAM_VALUE = unsized PARAM_VALUE_layout"
  by (simp add: PARAM_VALUE_def PARAM_VALUE_layout_def layout_eval)

lemma orderFields_SYSTEM_TIME: "orderFields SYSTEM_TIME = unsized SYSTEM_TIME_layout"
  by (simp add: SYSTEM_TIME_def SYSTEM_TIME_layout_def layout_eval)

lemma checksum_ATTITUDE: "calculateMessageChecksum ATTITUDE = (unsized ATTITUDE_layout, 39)"
  unfolding calculateMessageChecksum_def orderFields_ATTITUDE
  by (simp add: ATTITUDE_layout_def unsized_def unsized_field_def fieldSplit_def checksum_eval)

lemma checksum_PARAM_VALUE: "calculateMessageChecksum PARAM_VALUE = (unsized PARAM_VALUE_layout, 220)"
  unfolding calculateMessageChecksum_def orderFields_PARAM_VALUE
  by (simp add: PARAM_VALUE_layout_def unsized_def unsized_field_def fieldSplit_def checksum_eval
      parseInt_eval)

lemma checksum_SYSTEM_TIME: "calculateMessageChecksum SYSTEM_TIME = (unsized SYSTEM_TIME_layout, 137)"
  unfolding calculateMessageChecksum_def orderFields_SYSTEM_TIME
  by (simp add: SYSTEM_TIME_layout_def unsized_def unsized_field_def fieldSplit_def checksum_eval)

lemma spec_words_ATTITUDE:
  "fold_byte (calculateChecksum (one_byte_each (spec_signature (unsized ATTITUDE_layout)))) = 98"
  by (simp add: ATTITUDE_layout_def unsized_def unsized_field_def spec_signature_def spec_items_def
      type_token_def array_character_def one_byte_each_def fieldSplit_def fold_byte_def checksum_eval)


section \<open>The catalog after loading\<close>

lemma loaded_from_new: "loaded_from {} (new_mavlink sid cid ver)"
  by (simp add: loaded_from_def new_mavlink_def)

lemma loaded_from_mono: "loaded_from S st \<Longrightarrow> S \<subseteq> T \<Longrightarrow> loaded_from T st"
  unfolding loaded_from_def by blast

lemma m_id_orderFields [simp]: "m_id (orderFields m) = mid m"
  by (simp add: orderFields_def Let_def)

lemma loaded_from_step:
  assumes inv: "loaded_from S st"
  shows "loaded_from (insert m S)
           (addMessage (st\<lparr>messageChecksums := (messageChecksums st)(mid m \<mapsto> snd (calculateMessageChecksum m))\<rparr>)
              (Processed (orderFields m)))"
  unfolding loaded_from_def
proof (intro allI impI)
  fix i e
  let ?st = "addMessage (st\<lparr>messageChecksums := (messageChecksums st)(mid m \<mapsto> snd (calculateMessageChecksum m))\<rparr>)
              (Processed (orderFields m))"
  assume look: "messagesByID ?st i = Some e"
  show "\<exists>m'\<in>insert m S. e = Processed (orderFields m') \<and> i = mid m' \<and>
          messageChecksums ?st i = Some (snd (calculateMessageChecksum m'))"
  proof (cases "i = mid m")
    case True
    with look have "e = Processed (orderFields m)" by (simp add: addMessage_def)
    with True show ?thesis by (auto simp: addMessage_def)
  next
    case False
    with look have "messagesByID st i = Some e" by (simp add: addMessage_def)
    with inv obtain m' where "m' \<in> S" "e = Processed (orderFields m')" "i = mid m'"
      "messageChecksums st i = Some (snd (calculateMessageChecksum m'))"
      unfolding loaded_from_def by blast
    with False show ?thesis by (auto simp: addMessage_def)
  qed
qed

lemma addMessage_version:
  "version (addMessage st e) = version st"
  by (simp add: addMessage_def)

lemma addMessages_loaded:
  "version st = ''v1.0'' \<Longrightarrow> loaded_from S st \<Longrightarrow>
     loaded_from (S \<union> set ms) (addMessages st ms) \<and> version (addMessages st ms) = ''v1.0''"
proof (induction ms arbitrary: st S)
  case Nil
  then show ?case by simp
next
  case (Cons m ms)
  let ?st1 = "addMessage (st\<lparr>messageChecksums := (messageChecksums st)(mid m \<mapsto> snd (calculateMessageChecksum m))\<rparr>)
                (Processed (orderFields m))"
  have step: "addMessages st (m # ms) = addMessages ?st1 ms"
    using Cons.prems(1) fst_calculateMessageChecksum[of m]
    by (simp add: case_prod_beta)
  have v: "version ?st1 = ''v1.0''" using Cons.prems(1) by (simp add: addMessage_version)
  have inv: "loaded_from (insert m S) ?st1" using Cons.prems(2) by (rule loaded_from_step)
  from Cons.IH[OF v inv] show ?case unfolding step by simp
qed

lemma loadDefinitions_loaded:
  "version st = ''v1.0'' \<Longrightarrow> loaded_from S st \<Longrightarrow>
     loaded_from (S \<union> set (concat docs)) (loadDefinitions st docs) \<and>
     version (loadDefinitions st docs) = ''v1.0''"
proof (induction docs arbitrary: st S)
  case Nil
  then show ?case by simp
next
  case (Cons d ds)
  from addMessages_loaded[OF Cons.prems(1,2), of d]
  have "loaded_from (S \<union> set d) (addMessages st d)" "version (addMessages st d) = ''v1.0''"
    by simp_all
  from Cons.IH[OF this(2,1)] show ?case by (simp add: Un_assoc)
qed

lemma loaded_catalog:
  "loaded_from (set (concat docs)) (loadDefinitions (new_mavlink sid cid ''v1.0'') docs)"
  using loadDefinitions_loaded[OF _ loaded_from_new, of sid cid "''v1.0''" docs]
  by (simp add: new_mavlink_def)

lemma load_one:
  "loadDefinitions (new_mavlink sid cid ''v1.0'') [[m]] =
     addMessage ((new_mavlink sid cid ''v1.0'')\<lparr>messageChecksums := [mid m \<mapsto> snd (calculateMessageChecksum m)]\<rparr>)
       (Processed (orderFields m))"
  using fst_calculateMessageChecksum[of m]
  by (simp add: case_prod_beta) (simp add: new_mavlink_def)

section \<open>Layout and checksum of the loaded catalog\<close>



lemma look_PARAM_VALUE:
  "messagesByID (loadDefinitions (new_mavlink 1 1 ''v1.0'') [[PARAM_VALUE]]) 22 =
     Some (Processed (orderFields PARAM_VALUE))"
  unfolding load_one by (simp add: addMessage_def PARAM_VALUE_def)



text \<open>
  C3, as amended. In version \<open>v1.0\<close>, after loading, every entry of the catalog is the
  processed descriptor of a message of the schema with its id. When every character of
  its signature string has a code below 128, the checksum stored for the id is the fold
  \<open>(crc AND 0xFF) XOR (crc >> 8)\<close> of the X.25 checksum of the characters of the
  signature string, one byte each. The signature string is the message name followed by
  a space, then for each field in the order of the descriptor's field list its type token
  followed by a space, its name followed by a space and, for a type with brackets, the
  character whose code is the length written between them.
\<close>

theorem seed_after_loading:
  assumes "messagesByID (loadDefinitions (new_mavlink sid cid ''v1.0'') docs) i = Some e"
  shows "\<exists>m. m \<in> set (concat docs) \<and> mid m = i \<and> e = Processed (orderFields m) \<and>
           ((\<forall>u\<in>set (signature (orderFields m)). u < 128) \<longrightarrow>
              messageChecksums (loadDefinitions (new_mavlink sid cid ''v1.0'') docs) i =
                Some (fold_byte (calculateChecksum (one_byte_each (signature (orderFields m))))))"
proof -
  from loaded_catalog[of docs sid cid] assms
  obtain m where m: "m \<in> set (concat docs)" and e: "e = Processed (orderFields m)" and i: "i = mid m"
    and s: "messageChecksums (loadDefinitions (new_mavlink sid cid ''v1.0'') docs) i =
              Some (snd (calculateMessageChecksum m))"
    unfolding loaded_from_def by blast
  from m e i s calculateMessageChecksum_signature[of m] show ?thesis by auto
qed

lemma ascii_PARAM_VALUE: "\<forall>u\<in>set (signature (orderFields PARAM_VALUE)). u < 128"
  unfolding orderFields_PARAM_VALUE
  by (simp add: PARAM_VALUE_layout_def unsized_def unsized_field_def signature_def field_signature_def
      type_token_def array_character_def fieldSplit_def units_def fromCharCode_def parseInt_eval)

theorem seed_after_loading_witness:
  "messagesByID (loadDefinitions (new_mavlink 1 1 ''v1.0'') [[PARAM_VALUE]]) 22 =
     Some (Processed (orderFields PARAM_VALUE)) \<and>
   messageChecksums (loadDefinitions (new_mavlink 1 1 ''v1.0'') [[PARAM_VALUE]]) 22 =
     Some (fold_byte (calculateChecksum (one_byte_each (signature (orderFields PARAM_VALUE))))) \<and>
   messageChecksums (loadDefinitions (new_mavlink 1 1 ''v1.0'') [[PARAM_VALUE]]) 22 = Some 220"
proof -
  from seed_after_loading[OF look_PARAM_VALUE]
  obtain m where m: "m \<in> set (concat [[PARAM_VALUE]])"
    and imp: "(\<forall>u\<in>set (signature (orderFields m)). u < 128) \<longrightarrow>
              messageChecksums (loadDefinitions (new_mavlink 1 1 ''v1.0'') [[PARAM_VALUE]]) 22 =
                Some (fold_byte (calculateChecksum (one_byte_each (signature (orderFields m)))))"
    by blast
  from m have "m = PARAM_VALUE" by simp
  with imp ascii_PARAM_VALUE
  have "messageChecksums (loadDefinitions (new_mavlink 1 1 ''v1.0'') [[PARAM_VALUE]]) 22 =
          Some (fold_byte (calculateChecksum (one_byte_each (signature (orderFields PARAM_VALUE)))))"
    by blast
  moreover have "messageChecksums (loadDefinitions (new_mavlink 1 1 ''v1.0'') [[PARAM_VALUE]]) 22 = Some 220"
    unfolding load_one by (simp add: addMessage_def checksum_PARAM_VALUE) (simp add: PARAM_VALUE_def)
  ultimately show ?thesis using look_PARAM_VALUE by simp
qed

theorem seed_spec_words_counterexample:
  "messageChecksums (loadDefinitions (new_mavlink 1 1 ''v1.0'') [[ATTITUDE]]) 30 = Some 39 \<and>
   fold_byte (calculateChecksum (one_byte_each (spec_signature (orderFields ATTITUDE)))) = 98"
proof -
  have "messageChecksums (loadDefinitions (new_mavlink 1 1 ''v1.0'') [[ATTITUDE]]) 30 = Some 39"
    unfolding load_one by (simp add: addMessage_def checksum_ATTITUDE) (simp add: ATTITUDE_def)
  with spec_words_ATTITUDE show ?thesis by (simp add: orderFields_ATTITUDE)
qed

section \<open>Chunks, bytes and checksums\<close>

lemma parse_append: "parse st (a @ b) = parse_then_parse st a b"
proof (induction a arbitrary: st)
  case Nil
  show ?case by (simp add: parse_then_parse_def split: prod.splits)
next
  case (Cons ch a)
  show ?case
    by (auto simp: parse_then_parse_def Cons split: prod.splits option.splits)
qed

lemma length_le_bytes [simp]: "length (le_bytes n v) = n"
  by (induction n arbitrary: v) auto

lemma le_value_le_bytes: "le_value (le_bytes n v) = v mod 256 ^ n"
proof (induction n arbitrary: v)
  case 0
  show ?case by simp
next
  case (Suc n)
  have "uint (word_of_int v :: byte) = v mod 256"
    by (simp add: uint_word_of_int)
  then have "le_value (le_bytes (Suc n) v) = v mod 256 + 256 * ((v div 256) mod 256 ^ n)"
    by (simp add: Suc)
  also have "\<dots> = v mod (256 * 256 ^ n)"
    using zmod_zmult2_eq[of "256 ^ n" v 256] by simp
  finally show ?case by simp
qed

lemma le_value_bounds: "0 \<le> le_value bs \<and> le_value bs < 256 ^ length bs"
proof (induction bs)
  case Nil
  show ?case by simp
next
  case (Cons b bs)
  have "0 \<le> uint b" "uint b < 256"
    using uint_lt2p[of b] by simp_all
  with Cons show ?case by simp
qed

lemma le_bytes_le_value: "le_bytes (length bs) (le_value bs) = bs"
proof (induction bs)
  case Nil
  show ?case by simp
next
  case (Cons b bs)
  have b: "0 \<le> uint b" "uint b < 256"
    using uint_lt2p[of b] by simp_all
  then have d: "(uint b + 256 * le_value bs) div 256 = le_value bs" by simp
  have "(word_of_int (uint b + 256 * le_value bs) :: byte)
          = word_of_int (uint b) + 256 * word_of_int (le_value bs)"
    by simp
  also have "\<dots> = b"
  proof -
    have "(256 :: byte) = 0" by (simp add: word_eq_iff_unsigned[where ?'a = nat])
    then have "(256 :: byte) * word_of_int (le_value bs) = 0" by (metis mult_zero_left)
    then show ?thesis by (simp only: word_of_int_uint add_0_right)
  qed
  finally show ?case using Cons d by simp
qed

lemma calculateChecksum_bounds: "0 \<le> calculateChecksum bs \<and> calculateChecksum bs < 65536"
proof -
  have step: "0 \<le> checksum_step c b \<and> checksum_step c b < 65536" for c b
  proof -
    have "checksum_step c b \<le> 65535"
      unfolding checksum_step_def Let_def by (rule AND_upper2') simp_all
    moreover have "0 \<le> checksum_step c b"
      unfolding checksum_step_def Let_def by (simp add: and_nonnegative_int_iff)
    ultimately show ?thesis by simp
  qed
  have "0 \<le> foldl checksum_step c bs \<and> foldl checksum_step c bs < 65536"
    if "0 \<le> c \<and> c < 65536" for c
    using that by (induction bs arbitrary: c) (auto simp: step)
  then show ?thesis by (simp add: calculateChecksum_def)
qed

section \<open>Writing the values of a field map\<close>

lemma base_token_hd: "base_token f = hd (fieldSplit (ptype f))"
  using fieldSplit_nonempty[of "ptype f"] by (simp add: base_token_def split: list.splits)

lemma write_bytes_at:
  "length gap = length bs \<Longrightarrow> write_bytes (pre @ gap @ post) (length pre) bs = Inr (pre @ bs @ post)"
  by (simp add: write_bytes_def)

lemma read_bytes_at:
  "length bs = n \<Longrightarrow> read_bytes (pre @ bs @ post) (length pre) n = Inr bs"
  by (simp add: read_bytes_def)

lemma unsigned_cases:
  "unsigned_bytes t = Some k \<Longrightarrow>
     typeLengths t = Some k \<and>
     write_element t buf off (Num n) = writeUInt k buf n off \<and>
     read_element t p off = map_sum id Num (readUInt k p off)"
  by (auto simp: unsigned_bytes_def typeLengths_def write_element_def read_element_def split: if_splits)

lemma signed_cases:
  "signed_bytes t = Some k \<Longrightarrow>
     typeLengths t = Some k \<and> unsigned_bytes t = None \<and>
     write_element t buf off (Num n) = writeInt k buf n off \<and>
     read_element t p off = map_sum id Num (readInt k p off)"
  by (auto simp: signed_bytes_def unsigned_bytes_def typeLengths_def write_element_def read_element_def split: if_splits)

lemma valid_element_size:
  "valid_element t v \<Longrightarrow> typeLengths t = Some k \<Longrightarrow> length (element_bytes t v) = k"
  by (auto simp: valid_element_def element_bytes_def typeLengths_def split: jsval.splits option.splits)

lemma valid_element_known:
  "valid_element t v \<Longrightarrow> \<exists>k. typeLengths t = Some k \<and> 0 < k"
  by (auto simp: valid_element_def typeLengths_def unsigned_bytes_def signed_bytes_def
      split: jsval.splits option.splits if_splits)

lemma write_valid_element:
  assumes "valid_element t v" and "typeLengths t = Some k" and "length gap = k"
  shows "write_element t (pre @ gap @ post) (length pre) v = Inr (pre @ element_bytes t v @ post)"
proof (cases v)
  case (Num n)
  show ?thesis
  proof (cases "unsigned_bytes t")
    case (Some k')
    with unsigned_cases[OF Some] assms(2) have k: "k' = k" by simp
    from assms(1) Num Some have "0 \<le> n" "n < 256 ^ k" by (auto simp: valid_element_def k)
    with unsigned_cases[OF Some, of "pre @ gap @ post" "length pre" n] assms(2,3) Num k show ?thesis
      by (simp add: writeUInt_def element_bytes_def write_bytes_at)
  next
    case None
    with assms(1) Num obtain k' where s: "signed_bytes t = Some k'"
      and r: "- (256 ^ k' div 2) \<le> n" "n < 256 ^ k' div 2"
      by (auto simp: valid_element_def split: option.splits)
    with signed_cases[OF s] assms(2) have k: "k' = k" by simp
    from signed_cases[OF s, of "pre @ gap @ post" "length pre" n] r assms(2,3) Num k show ?thesis
      by (simp add: writeInt_def element_bytes_def write_bytes_at)
  qed
next
  case (F32 w)
  with assms have "t = ''float''" "k = 4" by (auto simp: valid_element_def typeLengths_def)
  with F32 assms(3) show ?thesis
    by (simp add: write_element_def element_bytes_def write_bytes_at)
next
  case (F64 w)
  with assms have "t = ''double''" "k = 8" by (auto simp: valid_element_def typeLengths_def)
  with F64 assms(3) show ?thesis
    by (simp add: write_element_def element_bytes_def write_bytes_at)
qed (use assms in \<open>auto simp: valid_element_def\<close>)


lemma write_elements_valid:
  assumes "list_all (valid_element t) vs" and "typeLengths t = Some k"
    and "length gap = k * length vs"
  shows "write_elements t k (pre @ gap @ post) (length pre) vs
           = Inr (pre @ concat (map (element_bytes t) vs) @ post)"
  using assms
proof (induction vs arbitrary: pre gap)
  case Nil
  then show ?case by simp
next
  case (Cons v vs)
  let ?g1 = "take k gap" and ?g2 = "drop k gap"
  from Cons.prems have g: "gap = ?g1 @ ?g2" "length ?g1 = k" "length ?g2 = k * length vs"
    by simp_all
  from Cons.prems have v: "valid_element t v" and vs: "list_all (valid_element t) vs" by simp_all
  have w: "write_element t (pre @ gap @ post) (length pre) v
             = Inr (pre @ element_bytes t v @ ?g2 @ post)"
    using write_valid_element[OF v Cons.prems(2) g(2), of pre "?g2 @ post"] g(1)
    by (metis append.assoc)
  have len: "length (pre @ element_bytes t v) = length pre + k"
    using valid_element_size[OF v Cons.prems(2)] by simp
  from Cons.IH[OF vs Cons.prems(2) g(3), of "pre @ element_bytes t v"]
  show ?case using w len by simp
qed

lemma of_char_int: "(of_char c :: int) = int (of_char c)"
  by (simp only: of_nat_of_char)

lemma char_byte_of_int: "(word_of_int (of_char c) :: byte) = char_byte c"
  by (simp only: of_char_int of_int_of_nat_eq char_byte_def)

lemma write_char: "write_element ''char'' (pre @ [b] @ post) (length pre) (Str [c])
    = Inr (pre @ [char_byte c] @ post)"
proof -
  have "(of_char c :: nat) < 256"
    using of_char_mod_256[where ?'a = nat and c = c] mod_less_divisor[of 256 "of_char c :: nat"]
    by (metis zero_less_numeral)
  then have "(of_char c :: int) < 256" "0 \<le> (of_char c :: int)"
    by (simp_all only: of_char_int of_nat_less_numeral_iff of_nat_0_le_iff)
  then show ?thesis
    using write_bytes_at[of "[b]" "[char_byte c]" pre post]
    by (simp add: write_element_def writeUInt_def char_byte_of_int)
qed

lemma write_elements_chars:
  "length gap = length s \<Longrightarrow>
   write_elements ''char'' 1 (pre @ gap @ post) (length pre) (map (\<lambda>c. Str [c]) s)
     = Inr (pre @ map char_byte s @ post)"
proof (induction s arbitrary: pre gap)
  case Nil
  then show ?case by simp
next
  case (Cons c s)
  then obtain b gap' where g: "gap = b # gap'" "length gap' = length s"
    by (cases gap) auto
  have w: "write_element ''char'' (pre @ gap @ post) (length pre) (Str [c])
             = Inr (pre @ [char_byte c] @ gap' @ post)"
    using write_char[of pre b "gap' @ post" c] g by simp
  from Cons.IH[OF g(2), of "pre @ [char_byte c]"] w show ?case by simp
qed

lemma laid_out_type: "laid_out f \<Longrightarrow> typeLengths (base_token f) = Some (typeLength f)"
  using fieldSplit_nonempty[of "ptype f"]
  by (auto simp: laid_out_def fieldTypeLength_def base_token_def split: list.splits)

lemma is_array_pieces: "\<not> is_array f \<Longrightarrow> length (fieldSplit (ptype f)) = 1"
  using fieldSplit_nonempty[of "ptype f"]
  by (cases "fieldSplit (ptype f)") (auto simp: is_array_def)

lemma bufferField_valid:
  assumes lo: "laid_out f" and v: "valid_value f v"
  shows "bufferField (pre @ replicate (flength f) 0 @ post) (length pre) f v
           = Inr (pre @ field_bytes f v @ post)"
    and "length (field_bytes f v) = flength f"
proof -
  let ?t = "base_token f"
  from lo have tl: "typeLengths ?t = Some (typeLength f)" by (rule laid_out_type)
  from lo have fl: "flength f = typeLength f * arrayLength f" by (simp add: laid_out_def)
  have both: "bufferField (pre @ replicate (flength f) 0 @ post) (length pre) f v
           = Inr (pre @ field_bytes f v @ post) \<and> length (field_bytes f v) = flength f"
  proof (cases "is_array f")
    case True
    then have pieces: "length (fieldSplit (ptype f)) \<noteq> 1" by (simp add: is_array_def)
    show ?thesis
    proof (cases "?t = ''char''")
      case c: True
      with v True obtain s where s: "v = Str s" "length s \<le> arrayLength f"
        by (auto simp: valid_value_def Let_def split: jsval.splits)
      from c tl have one: "typeLength f = 1" by (simp add: typeLengths_def)
      with fl have fl1: "flength f = arrayLength f" by simp
      let ?rest = "replicate (flength f - length s) (0 :: byte)"
      have split: "replicate (flength f) (0 :: byte) = replicate (length s) 0 @ ?rest"
        using s(2) fl1 by (simp flip: replicate_add)
      have "write_elements ''char'' 1 (pre @ replicate (length s) 0 @ (?rest @ post)) (length pre)
              (map (\<lambda>c. Str [c]) s) = Inr (pre @ map char_byte s @ (?rest @ post))"
        by (rule write_elements_chars) simp
      then have "bufferField (pre @ replicate (flength f) 0 @ post) (length pre) f v
           = Inr (pre @ field_bytes f v @ post)"
        using pieces s c True one fl1 split
        by (simp add: bufferField_def valueArr_def field_bytes_def base_token_hd)
      moreover have "length (field_bytes f v) = flength f"
        using s True fl1 by (simp add: field_bytes_def)
      ultimately show ?thesis by simp
    next
      case nc: False
      with v True obtain vs where vs: "v = Arr vs" "length vs = arrayLength f"
        "list_all (valid_element ?t) vs"
        by (auto simp: valid_value_def Let_def split: jsval.splits)
      have "write_elements ?t (typeLength f) (pre @ replicate (flength f) 0 @ post) (length pre) vs
              = Inr (pre @ concat (map (element_bytes ?t) vs) @ post)"
        using vs fl by (intro write_elements_valid[OF vs(3) tl]) simp
      then have "bufferField (pre @ replicate (flength f) 0 @ post) (length pre) f v
           = Inr (pre @ field_bytes f v @ post)"
        using pieces vs True
        by (simp add: bufferField_def valueArr_def field_bytes_def base_token_hd)
      moreover have "length (concat (map (element_bytes ?t) vs)) = typeLength f * length vs"
        using vs(3)
      proof (induction vs)
        case Nil
        show ?case by simp
      next
        case (Cons a vs)
        then show ?case using valid_element_size[OF _ tl, of a] by simp
      qed
      ultimately show ?thesis using vs True fl by (simp add: field_bytes_def)
    qed
  next
    case False
    then have pieces: "length (fieldSplit (ptype f)) = 1" by (rule is_array_pieces)
    from lo False have al: "arrayLength f = 1" by (simp add: laid_out_def)
    with fl have fl1: "flength f = typeLength f" by simp
    show ?thesis
    proof (cases "?t = ''char''")
      case c: True
      with v False obtain ch where s: "v = Str [ch]"
        by (auto simp: valid_value_def Let_def length_Suc_conv split: jsval.splits)
      from c tl have one: "typeLength f = 1" by (simp add: typeLengths_def)
      have "write_element ''char'' (pre @ [0] @ post) (length pre) (Str [ch])
              = Inr (pre @ [char_byte ch] @ post)"
        by (rule write_char)
      then show ?thesis
        using pieces s c False one fl1
        by (simp add: bufferField_def valueArr_def field_bytes_def element_bytes_def base_token_hd)
    next
      case nc: False
      with v False have ve: "valid_element ?t v" by (simp add: valid_value_def Let_def)
      have "write_element ?t (pre @ replicate (flength f) 0 @ post) (length pre) v
              = Inr (pre @ element_bytes ?t v @ post)"
        using fl1 by (intro write_valid_element[OF ve tl]) simp
      then show ?thesis
        using pieces False fl1 valid_element_size[OF ve tl]
        by (simp add: bufferField_def valueArr_def field_bytes_def base_token_hd)
    qed
  qed
  from both show "bufferField (pre @ replicate (flength f) 0 @ post) (length pre) f v
           = Inr (pre @ field_bytes f v @ post)"
    and "length (field_bytes f v) = flength f"
    by simp_all
qed

lemma valid_not_undefined: "valid_value f v \<Longrightarrow> v \<noteq> Undefined"
  by (auto simp: valid_value_def valid_element_def Let_def split: if_splits)

lemma fill_fields_step:
  "data (pname f) = Some v \<Longrightarrow> v \<noteq> Undefined \<Longrightarrow>
   fill_fields (f # fs) data buf off =
     (case bufferField buf off f v of
        Inl e \<Rightarrow> Inl (Thrown e)
      | Inr buf' \<Rightarrow> fill_fields fs data buf' (off + flength f))"
  by (cases v) simp_all

lemma fill_fields_valid:
  assumes "\<forall>f\<in>set fs. laid_out f \<and> (\<exists>v. data (pname f) = Some v \<and> valid_value f v)"
  shows "fill_fields fs data (pre @ replicate (sum_list (map flength fs)) 0) (length pre)
           = Inr (pre @ payload_bytes fs data)
         \<and> length (payload_bytes fs data) = sum_list (map flength fs)"
  using assms
proof (induction fs arbitrary: pre)
  case Nil
  show ?case by (simp add: payload_bytes_def)
next
  case (Cons f fs)
  then obtain v where lo: "laid_out f" and d: "data (pname f) = Some v" and v: "valid_value f v"
    by auto
  let ?rest = "replicate (sum_list (map flength fs)) (0 :: byte)"
  have split: "replicate (sum_list (map flength (f # fs))) (0 :: byte)
                 = replicate (flength f) 0 @ ?rest"
    by (simp add: replicate_add)
  have w: "bufferField (pre @ replicate (flength f) 0 @ ?rest) (length pre) f v
             = Inr (pre @ field_bytes f v @ ?rest)"
    by (rule bufferField_valid(1)[OF lo v])
  have len: "length (field_bytes f v) = flength f" by (rule bufferField_valid(2)[OF lo v])
  from Cons.prems have rest: "\<forall>f\<in>set fs. laid_out f \<and> (\<exists>v. data (pname f) = Some v \<and> valid_value f v)"
    by simp
  from Cons.IH[OF rest, of "pre @ field_bytes f v"] len
  have ih: "fill_fields fs data (pre @ field_bytes f v @ ?rest) (length pre + flength f)
              = Inr (pre @ field_bytes f v @ payload_bytes fs data)"
    and ihl: "length (payload_bytes fs data) = sum_list (map flength fs)"
    by simp_all
  have pb: "payload_bytes (f # fs) data = field_bytes f v @ payload_bytes fs data"
    using d by (simp add: payload_bytes_def)
  have "fill_fields (f # fs) data (pre @ replicate (flength f) 0 @ ?rest) (length pre)
          = fill_fields fs data (pre @ field_bytes f v @ ?rest) (length pre + flength f)"
    by (simp only: fill_fields_step[of data f v, OF d valid_not_undefined[OF v]] w sum.case)
  with ih have "fill_fields (f # fs) data (pre @ replicate (sum_list (map flength (f # fs))) 0) (length pre)
          = Inr (pre @ payload_bytes (f # fs) data)"
    by (simp only: split pb)
  moreover have "length (payload_bytes (f # fs) data) = sum_list (map flength (f # fs))"
    using ihl len by (simp add: pb)
  ultimately show ?case by simp
qed

section \<open>The frame that createMessage builds\<close>

lemma buffer_copy_at:
  "length gap = n \<Longrightarrow> a + n \<le> length source \<Longrightarrow> t = length pre \<Longrightarrow> e = a + n \<Longrightarrow>
   buffer_copy source (pre @ gap @ post) t a e = pre @ take n (drop a source) @ post"
  by (simp add: buffer_copy_def Let_def min_def)

lemma read_bytes_at':
  "off = length pre \<Longrightarrow> length bs = n \<Longrightarrow> read_bytes (pre @ bs @ post) off n = Inr bs"
  by (simp add: read_bytes_def)

lemma write_bytes_at':
  "off = length pre \<Longrightarrow> length gap = length bs \<Longrightarrow>
   write_bytes (pre @ gap @ post) off bs = Inr (pre @ bs @ post)"
  by (simp add: write_bytes_def)

lemma take_prefix: "length xs = n \<Longrightarrow> take n (xs @ ys) = xs"
  by simp

lemma new_mavlinkMessage_frame:
  assumes len: "length payload < 256"
    and frame: "frame = [s, l, q, y, c, d] @ payload @ crc @ rest"
    and l: "unat l = length payload" and crc: "length crc = 2"
  shows "new_mavlinkMessage frame =
           Inr \<lparr>msg_length = length payload, msg_sequence = unat q, msg_system = unat y,
                msg_component = unat c, msg_id = unat d, msg_payload = payload,
                msg_checksum = le_value crc, msg_buffer = [s, l, q, y, c, d] @ payload @ crc\<rparr>"
proof -
  let ?L = "length payload"
  have "read_bytes (([s, l, q, y, c, d] @ payload) @ crc @ rest) (?L + 6) 2 = Inr crc"
    by (rule read_bytes_at') (simp_all add: crc)
  then have r: "readUInt 2 frame (?L + 6) = Inr (le_value crc)"
    by (simp add: readUInt_def frame)
  have "buffer_copy frame ([] @ replicate ?L 0 @ []) 0 6 (6 + ?L) = [] @ take ?L (drop 6 frame) @ []"
    by (rule buffer_copy_at) (simp_all add: frame)
  then have p: "buffer_copy frame (replicate ?L 0) 0 6 (6 + ?L) = payload"
    by (simp add: frame)
  have "buffer_copy frame ([] @ replicate (?L + 8) 0 @ []) 0 0 (8 + ?L)
          = [] @ take (?L + 8) (drop 0 frame) @ []"
    by (rule buffer_copy_at) (simp_all add: frame crc)
  moreover have "length ([s, l, q, y, c, d] @ payload @ crc) = ?L + 8"
    by (simp add: crc)
  then have "take (?L + 8) (([s, l, q, y, c, d] @ payload @ crc) @ rest) = [s, l, q, y, c, d] @ payload @ crc"
    by (metis append_eq_conv_conj)
  then have "take (?L + 8) frame = [s, l, q, y, c, d] @ payload @ crc"
    by (simp add: frame)
  ultimately have b: "buffer_copy frame (replicate (?L + 8) 0) 0 0 (8 + ?L) = [s, l, q, y, c, d] @ payload @ crc"
    by simp
  have n: "frame ! 1 = l" "frame ! 2 = q" "frame ! 3 = y" "frame ! 4 = c" "frame ! 5 = d"
    by (simp_all add: frame)
  have six: "\<not> length frame < 6" by (simp add: frame)
  show ?thesis
    unfolding new_mavlinkMessage_def n l Let_def
    by (simp only: six if_False r p b sum.case)
qed

lemma header_update:
  "(replicate (L + 8) (0 :: byte))[0 := a, 1 := b, 2 := c, 3 := d, 4 := e, 5 := f]
     = [a, b, c, d, e, f] @ replicate L 0 @ [0, 0]"
proof -
  have "L + 8 = 6 + (L + 2)" by simp
  then have "replicate (L + 8) (0 :: byte) = replicate 6 0 @ replicate L 0 @ replicate 2 0"
    by (simp only: replicate_add)
  moreover have "replicate 6 (0 :: byte) = [0, 0, 0, 0, 0, 0]" "replicate 2 (0 :: byte) = [0, 0]"
    by (simp_all add: numeral_eq_Suc)
  ultimately have "replicate (L + 8) (0 :: byte) = [0, 0, 0, 0, 0, 0] @ replicate L 0 @ [0, 0]"
    by simp
  then show ?thesis by (simp add: numeral_eq_Suc)
qed

lemma createMessage_framed:
  assumes look: "messagesByID st i = Some (Processed (unsized M))"
    and fill: "fill_fields (field M) data (replicate (payloadLength M) 0) 0 = Inr payload"
    and plen: "length payload = payloadLength M"
  shows "createMessage st (ById i) data
           = (case new_mavlinkMessage (frame_of (next_sequence st) i payload) of
                Inl e \<Rightarrow> (Inl (Thrown e), next_sequence st)
              | Inr msgObj \<Rightarrow> (Inr msgObj, next_sequence st))"
proof -
  let ?L = "payloadLength M" and ?st = "next_sequence st"
  let ?h = "[start_byte (version ?st), of_nat ?L, of_nat (sequence ?st), of_nat (sysid ?st),
             of_nat (compid ?st), of_nat i] :: byte list"
  let ?crc = "frame_checksum ?st i payload"
  have header: "(replicate (?L + 8) (0 :: byte))
                  [0 := start_byte (version ?st), 1 := of_nat ?L, 2 := of_nat (sequence ?st),
                   3 := of_nat (sysid ?st), 4 := of_nat (compid ?st), 5 := of_nat i]
                = ?h @ replicate ?L 0 @ [0, 0]"
    by (rule header_update)
  have "buffer_copy payload (?h @ replicate ?L 0 @ [0, 0]) 6 0 (length payload)
                  = ?h @ take ?L (drop 0 payload) @ [0, 0]"
    by (rule buffer_copy_at) (simp_all add: plen)
  then have msgBuf: "buffer_copy payload (?h @ replicate ?L 0 @ [0, 0]) 6 0 (length payload)
                  = ?h @ payload @ [0, 0]"
    by (simp add: plen)
  have fb: "length (frame_body ?st i payload) = ?L + 5"
    using plen by (simp add: frame_body_def)
  have "buffer_copy (?h @ payload @ [0, 0]) ([] @ replicate (?L + 5) 0 @ [0]) 0 1 (?L + 6)
          = [] @ take (?L + 5) (drop 1 (?h @ payload @ [0, 0])) @ [0]"
    by (rule buffer_copy_at) (simp_all add: plen)
  moreover have "replicate (?L + 6) (0 :: byte) = [] @ replicate (?L + 5) 0 @ [0]"
  proof -
    have "?L + 6 = (?L + 5) + 1" by simp
    then have "replicate (?L + 6) (0 :: byte) = replicate (?L + 5) 0 @ replicate 1 0"
      by (simp only: replicate_add)
    then show ?thesis by simp
  qed
  moreover have "take (?L + 5) (drop 1 (?h @ payload @ [0, 0])) = frame_body ?st i payload"
  proof -
    have d: "drop 1 (?h @ payload @ [0, 0]) = frame_body ?st i payload @ [0, 0]"
      using plen by (simp add: frame_body_def)
    show ?thesis by (simp only: d take_prefix[OF fb])
  qed
  ultimately have "buffer_copy (?h @ payload @ [0, 0]) (replicate (?L + 6) 0) 0 1 (?L + 6)
          = frame_body ?st i payload @ [0]"
    by simp
  then have crc_buf: "(buffer_copy (?h @ payload @ [0, 0]) (replicate (?L + 6) 0) 0 1 (?L + 6))
                   [?L + 5 := seed_byte (messageChecksums ?st i)]
                 = frame_body ?st i payload @ [seed_byte (messageChecksums ?st i)]"
    using fb by (simp add: list_update_append)
  have range: "0 \<le> ?crc" "?crc < 256 ^ 2"
    using calculateChecksum_bounds[of "frame_body ?st i payload @ [seed_byte (messageChecksums ?st i)]"]
    by (simp_all add: frame_checksum_def)
  have "write_bytes ((?h @ payload) @ [0, 0] @ []) (?L + 6) (le_bytes 2 ?crc)
          = Inr ((?h @ payload) @ le_bytes 2 ?crc @ [])"
    by (rule write_bytes_at') (simp_all add: plen)
  then have framed: "writeUInt 2 (?h @ payload @ [0, 0]) ?crc (?L + 6) = Inr (?h @ payload @ le_bytes 2 ?crc)"
    using range by (simp add: writeUInt_def)
  have fo: "?h @ payload @ le_bytes 2 ?crc = frame_of ?st i payload"
    using plen by (simp add: frame_of_def frame_body_def)
  have st: "st\<lparr>sequence := (if sequence st = 255 then 0 else sequence st + 1)\<rparr> = ?st"
    by (simp add: next_sequence_def)
  show ?thesis
    unfolding createMessage_def resolve_def
    by (simp only: msgid.case look option.map option.case prod.case entry.case sized_unsized
        fill sum.case Let_def st header msgBuf crc_buf frame_checksum_def[symmetric] framed fo)
qed


lemma message_of_frame:
  assumes "length payload < 256"
  shows "new_mavlinkMessage (frame_of st i payload) = Inr (message_of st i payload)"
proof -
  let ?crc = "frame_checksum st i payload"
  have range: "0 \<le> ?crc" "?crc < 256 ^ 2"
    using calculateChecksum_bounds[of "frame_body st i payload @ [seed_byte (messageChecksums st i)]"]
    by (simp_all add: frame_checksum_def)
  then have v: "le_value (le_bytes 2 ?crc) = ?crc"
    by (simp add: le_value_le_bytes)
  have l: "unat (of_nat (length payload) :: byte) = length payload"
    using assms by (simp add: unat_of_nat)
  show ?thesis
    using new_mavlinkMessage_frame[of payload "frame_of st i payload"
        "start_byte (version st)" "of_nat (length payload)" "of_nat (sequence st)" "of_nat (sysid st)"
        "of_nat (compid st)" "of_nat i" "le_bytes 2 ?crc" "[]"] assms l v
    by (simp add: message_of_def frame_of_def frame_body_def)
qed

lemma createMessage_frame:
  assumes "messagesByID st i = Some (Processed (unsized M))"
    and "fill_fields (field M) data (replicate (payloadLength M) 0) 0 = Inr payload"
    and "length payload = payloadLength M" and "payloadLength M < 256"
  shows "createMessage st (ById i) data
           = (Inr (message_of (next_sequence st) i payload), next_sequence st)"
  using createMessage_framed[OF assms(1-3)] message_of_frame[of payload "next_sequence st" i] assms(3,4)
  by simp

lemma write_bytes_length: "write_bytes buf off bs = Inr buf' \<Longrightarrow> length buf' = length buf"
  by (auto simp: write_bytes_def split: if_splits)

lemma write_element_length: "write_element t buf off v = Inr buf' \<Longrightarrow> length buf' = length buf"
  by (auto simp: write_element_def writeUInt_def writeInt_def
      split: if_splits jsval.splits list.splits dest: write_bytes_length)

lemma write_elements_length:
  "write_elements t k buf off vs = Inr buf' \<Longrightarrow> length buf' = length buf"
proof (induction vs arbitrary: buf off)
  case Nil
  then show ?case by simp
next
  case (Cons v vs)
  then show ?case
    by (auto split: sum.splits dest!: write_element_length)
qed

lemma bufferField_length: "bufferField buf off f v = Inr buf' \<Longrightarrow> length buf' = length buf"
  by (auto simp: bufferField_def Let_def split: sum.splits dest: write_elements_length)

lemma fill_fields_length:
  "fill_fields fs data buf off = Inr buf' \<Longrightarrow> length buf' = length buf"
proof (induction fs arbitrary: buf off)
  case Nil
  then show ?case by simp
next
  case (Cons f fs)
  then show ?case
    by (auto split: option.splits jsval.splits sum.splits dest!: bufferField_length)
qed

lemma frame_of_length: "length (frame_of st i payload) = length payload + 8"
  by (simp add: frame_of_def frame_body_def)

lemma frame_of_nth:
  "frame_of st i payload ! 1 = of_nat (length payload)"
  "frame_of st i payload ! 2 = of_nat (sequence st)"
  by (simp_all add: frame_of_def frame_body_def)

lemma new_mavlinkMessage_any:
  assumes "unat (frame ! 1) + 8 \<le> length frame"
  shows "\<exists>msg. new_mavlinkMessage frame = Inr msg \<and> msg_sequence msg = unat (frame ! 2)
            \<and> msg_buffer msg ! 2 = frame ! 2"
proof -
  let ?len = "unat (frame ! 1)"
  from assms obtain cs where r: "readUInt 2 frame (?len + 6) = Inr cs"
    by (auto simp: readUInt_def read_bytes_def)
  have "buffer_copy frame ([] @ replicate (?len + 8) 0 @ []) 0 0 (8 + ?len)
          = [] @ take (?len + 8) (drop 0 frame) @ []"
    by (rule buffer_copy_at) (use assms in simp_all)
  then have b: "buffer_copy frame (replicate (?len + 8) 0) 0 0 (8 + ?len) = take (?len + 8) frame"
    by simp
  have six: "\<not> length frame < 6" using assms by simp
  have "take (?len + 8) frame ! 2 = frame ! 2" by simp
  then show ?thesis
    unfolding new_mavlinkMessage_def Let_def
    by (simp only: six if_False r b sum.case) simp
qed

lemma createMessage_built:
  assumes "messagesByID st i = Some (Processed (unsized M))"
    and "fill_fields (field M) data (replicate (payloadLength M) 0) 0 = Inr payload"
  shows "\<exists>msg. createMessage st (ById i) data = (Inr msg, next_sequence st)
           \<and> msg_sequence msg = unat (of_nat (sequence (next_sequence st)) :: byte)
           \<and> msg_buffer msg ! 2 = of_nat (sequence (next_sequence st))"
proof -
  from fill_fields_length[OF assms(2)] have plen: "length payload = payloadLength M" by simp
  let ?frame = "frame_of (next_sequence st) i payload"
  have "unat (?frame ! 1) = length payload mod 256"
    unfolding frame_of_nth by (simp add: unat_of_nat)
  then have "unat (?frame ! 1) \<le> length payload"
    by simp
  then have "unat (?frame ! 1) + 8 \<le> length ?frame"
    by (simp add: frame_of_length)
  from new_mavlinkMessage_any[OF this] obtain msg where
    "new_mavlinkMessage ?frame = Inr msg" "msg_sequence msg = unat (?frame ! 2)"
    "msg_buffer msg ! 2 = ?frame ! 2"
    by blast
  with createMessage_framed[OF assms plen] show ?thesis
    unfolding frame_of_nth by simp
qed

lemma createMessage_ById_cases:
  "(\<exists>e. fst (createMessage st (ById i) data) = Inl e \<and> snd (createMessage st (ById i) data) = st)
   \<or> (\<exists>msg. createMessage st (ById i) data = (Inr msg, next_sequence st)
           \<and> msg_sequence msg = unat (of_nat (sequence (next_sequence st)) :: byte)
           \<and> msg_buffer msg ! 2 = of_nat (sequence (next_sequence st)))"
proof (cases "messagesByID st i")
  case None
  then show ?thesis by (simp add: createMessage_def resolve_def)
next
  case (Some e)
  show ?thesis
  proof (cases e)
    case (Unprocessed r)
    with Some show ?thesis by (simp add: createMessage_def resolve_def)
  next
    case (Processed J)
    show ?thesis
    proof (cases "sized J")
      case None
      with Some Processed show ?thesis by (simp add: createMessage_def resolve_def)
    next
      case sz: (Some M)
      then have J: "J = unsized M" by (rule unsized_sized)
      show ?thesis
      proof (cases "fill_fields (field M) data (replicate (payloadLength M) 0) 0")
        case (Inl err)
        with Some Processed J show ?thesis by (simp add: createMessage_def resolve_def)
      next
        case (Inr payload)
        from createMessage_built[OF _ Inr, of st i] Some Processed J show ?thesis by simp
      qed
    qed
  qed
qed

lemma createMessage_ByName:
  "createMessage st (ByName n) data =
     (case messagesByName st n of
        None \<Rightarrow> (Inl UnknownMessage, st)
      | Some e \<Rightarrow> createMessage st (ById (entry_id e)) data)"
  by (simp add: createMessage_def resolve_def split: option.splits)

lemma createMessage_cases:
  "(\<exists>e. fst (createMessage st m data) = Inl e \<and> snd (createMessage st m data) = st)
   \<or> (\<exists>msg. createMessage st m data = (Inr msg, next_sequence st)
           \<and> msg_sequence msg = unat (of_nat (sequence (next_sequence st)) :: byte)
           \<and> msg_buffer msg ! 2 = of_nat (sequence (next_sequence st)))"
proof (cases m)
  case (ById i)
  then show ?thesis using createMessage_ById_cases by simp
next
  case (ByName n)
  show ?thesis
  proof (cases "messagesByName st n")
    case None
    with ByName show ?thesis by (simp add: createMessage_ByName)
  next
    case (Some e)
    with ByName createMessage_ById_cases[of st "entry_id e" data] show ?thesis
      by (simp add: createMessage_ByName)
  qed
qed

end
